theory Spec2Isabelle
  imports Main "HOL-Library.Word"
begin

section \<open>Solidity values\<close>

text \<open>
  The two contracts (\<^verbatim>\<open>EncryptedTasks\<close> and \<^verbatim>\<open>EncryptedFeedback\<close>) are compiled with
  Solidity 0.8: arithmetic on \<^verbatim>\<open>uint256\<close> is checked, an overflow or underflow aborts the
  call with \<^verbatim>\<open>Panic(0x11)\<close>, an array index out of range with \<^verbatim>\<open>Panic(0x32)\<close>, and a failed
  \<^verbatim>\<open>require\<close> with \<^verbatim>\<open>Error(string)\<close>. A call that aborts leaves the storage as it was, so
  every function of the model returns either the error or the new storage.

  \<^verbatim>\<open>uint256\<close> is modelled by \<open>nat\<close> with the checks written out; \<^verbatim>\<open>uint8\<close> and
  \<^verbatim>\<open>address\<close> are words. A Solidity \<^verbatim>\<open>mapping\<close> is a total function (every key holds the
  zero value until it is written). Events are not part of the storage and are left out.
\<close>

type_synonym address = "160 word"
type_synonym uint8 = "8 word"
type_synonym uint256 = nat
type_synonym bytes = "8 word list"

text \<open>The handles of the FHE library are \<^verbatim>\<open>bytes32\<close> values the contracts never look into.\<close>

type_synonym euint32 = "256 word"
type_synonym externalEuint32 = "256 word"

datatype error = Revert string | Panic | ExternalRevert

definition MAX_UINT256 :: nat where
  "MAX_UINT256 = 2 ^ 256 - 1"

definition checked_add :: "uint256 \<Rightarrow> uint256 \<Rightarrow> error + uint256" where
  "checked_add a b = (if a + b \<le> MAX_UINT256 then Inr (a + b) else Inl Panic)"

definition checked_sub :: "uint256 \<Rightarrow> uint256 \<Rightarrow> error + uint256" where
  "checked_sub a b = (if b \<le> a then Inr (a - b) else Inl Panic)"

definition checked_mul :: "uint256 \<Rightarrow> uint256 \<Rightarrow> error + uint256" where
  "checked_mul a b = (if a * b \<le> MAX_UINT256 then Inr (a * b) else Inl Panic)"

text \<open>
  \<^verbatim>\<open>FHE.fromExternal\<close> belongs to the imported library \<^verbatim>\<open>@fhevm/solidity\<close>: it checks the
  input proof and returns the internal handle, or aborts. It is a parameter of the model
  (\<open>None\<close> is the abort). \<^verbatim>\<open>FHE.allow\<close> and \<^verbatim>\<open>FHE.allowThis\<close> write the access-control list
  kept by the library's own contract, not the storage of these contracts.
\<close>

type_synonym fhe = "externalEuint32 \<Rightarrow> bytes \<Rightarrow> euint32 option"

text \<open>The loop \<^verbatim>\<open>for (i = 0; i < encryptedChunks.length; i++) FHE.fromExternal(...)\<close>.\<close>

fun convertChunks :: "fhe \<Rightarrow> externalEuint32 list \<Rightarrow> bytes \<Rightarrow> error + euint32 list" where
  "convertChunks fx [] inputProof = Inr []"
| "convertChunks fx (c # cs) inputProof =
     (case fx c inputProof of
        None \<Rightarrow> Inl ExternalRevert
      | Some h \<Rightarrow>
          (case convertChunks fx cs inputProof of
             Inl e \<Rightarrow> Inl e
           | Inr hs \<Rightarrow> Inr (h # hs)))"

section \<open>EncryptedTasks: storage\<close>

datatype TaskStatus = Todo | InProgress | Completed
datatype Priority = Low | Medium | High

text \<open>Field names carry a prefix because several structs of the source share them.\<close>

record Task =
  task_id :: uint256
  task_owner :: address
  task_encryptedDescription :: "euint32 list"
  task_title :: string
  task_status :: TaskStatus
  task_priority :: Priority
  task_dueDate :: uint256
  task_category :: string
  task_tags :: "string list"
  task_createdAt :: uint256
  task_updatedAt :: uint256
  task_completedAt :: uint256
  task_chunkCount :: uint8
  task_isArchived :: bool
  task_isFavorite :: bool
  task_color :: string

record TaskMetadata =
  md_id :: uint256
  md_title :: string
  md_status :: TaskStatus
  md_priority :: Priority
  md_dueDate :: uint256
  md_category :: string
  md_tags :: "string list"
  md_createdAt :: uint256
  md_updatedAt :: uint256
  md_completedAt :: uint256
  md_chunkCount :: uint8
  md_isArchived :: bool
  md_isFavorite :: bool
  md_color :: string
  md_owner :: address

record UserStats =
  totalTasks :: uint256
  todoTasks :: uint256
  inProgressTasks :: uint256
  completedTasks :: uint256
  archivedTasks :: uint256
  favoriteTasks :: uint256
  overdueTasks :: uint256
  totalStorage :: uint256

record SharedTaskReference =
  ref_owner :: address
  ref_taskId :: uint256

record tasks_state =
  userTasks :: "address \<Rightarrow> Task list"
  userStats :: "address \<Rightarrow> UserStats"
  tasksByCategory :: "address \<Rightarrow> string \<Rightarrow> uint256 list"
  tasksByTag :: "address \<Rightarrow> string \<Rightarrow> uint256 list"
  sharedWithMe :: "address \<Rightarrow> SharedTaskReference list"

definition MAX_CHUNKS_PER_TASK :: nat where
  "MAX_CHUNKS_PER_TASK = 128"

definition MAX_TASKS_PER_USER :: nat where
  "MAX_TASKS_PER_USER = 1000"

definition zeroStats :: UserStats where
  "zeroStats = \<lparr>totalTasks = 0, todoTasks = 0, inProgressTasks = 0, completedTasks = 0,
     archivedTasks = 0, favoriteTasks = 0, overdueTasks = 0, totalStorage = 0\<rparr>"

text \<open>The storage of a freshly deployed contract: every slot is zero.\<close>

definition tasks_init :: tasks_state where
  "tasks_init = \<lparr>userTasks = (\<lambda>_. []), userStats = (\<lambda>_. zeroStats),
     tasksByCategory = (\<lambda>_ _. []), tasksByTag = (\<lambda>_ _. []), sharedWithMe = (\<lambda>_. [])\<rparr>"

section \<open>EncryptedTasks: functions\<close>

text \<open>
  The status counters are decremented and incremented by the same \<^verbatim>\<open>if / else if\<close> chain in
  \<^verbatim>\<open>deleteTask\<close> and \<^verbatim>\<open>updateTaskStatus\<close>; the chain is written once here.
\<close>

definition decStatusCounter :: "UserStats \<Rightarrow> TaskStatus \<Rightarrow> error + UserStats" where
  "decStatusCounter st x =
     (if x = Todo then
        (case checked_sub (todoTasks st) 1 of
           Inl e \<Rightarrow> Inl e | Inr n \<Rightarrow> Inr (st\<lparr>todoTasks := n\<rparr>))
      else if x = InProgress then
        (case checked_sub (inProgressTasks st) 1 of
           Inl e \<Rightarrow> Inl e | Inr n \<Rightarrow> Inr (st\<lparr>inProgressTasks := n\<rparr>))
      else
        (case checked_sub (completedTasks st) 1 of
           Inl e \<Rightarrow> Inl e | Inr n \<Rightarrow> Inr (st\<lparr>completedTasks := n\<rparr>)))"

definition incStatusCounter :: "UserStats \<Rightarrow> TaskStatus \<Rightarrow> error + UserStats" where
  "incStatusCounter st x =
     (if x = Todo then
        (case checked_add (todoTasks st) 1 of
           Inl e \<Rightarrow> Inl e | Inr n \<Rightarrow> Inr (st\<lparr>todoTasks := n\<rparr>))
      else if x = InProgress then
        (case checked_add (inProgressTasks st) 1 of
           Inl e \<Rightarrow> Inl e | Inr n \<Rightarrow> Inr (st\<lparr>inProgressTasks := n\<rparr>))
      else
        (case checked_add (completedTasks st) 1 of
           Inl e \<Rightarrow> Inl e | Inr n \<Rightarrow> Inr (st\<lparr>completedTasks := n\<rparr>)))"

text \<open>The loop \<^verbatim>\<open>for (i = 0; i < tags.length; i++) tasksByTag[msg.sender][tags[i]].push(taskId)\<close>.\<close>

fun indexTags :: "(string \<Rightarrow> uint256 list) \<Rightarrow> string list \<Rightarrow> uint256 \<Rightarrow> (string \<Rightarrow> uint256 list)" where
  "indexTags m [] taskId = m"
| "indexTags m (t # ts) taskId = indexTags (m(t := m t @ [taskId])) ts taskId"

text \<open>
  \<^verbatim>\<open>createTask\<close>, with the modifier \<^verbatim>\<open>withinLimits(encryptedChunks.length)\<close> first. The
  arguments \<open>sender\<close> and \<open>now\<close> are \<^verbatim>\<open>msg.sender\<close> and \<^verbatim>\<open>block.timestamp\<close>.
\<close>

definition createTask ::
  "fhe \<Rightarrow> tasks_state \<Rightarrow> address \<Rightarrow> uint256 \<Rightarrow> externalEuint32 list \<Rightarrow> bytes \<Rightarrow> string \<Rightarrow>
   Priority \<Rightarrow> uint256 \<Rightarrow> string \<Rightarrow> string list \<Rightarrow> string \<Rightarrow> error + (tasks_state \<times> uint256)" where
  "createTask fx s sender now encryptedChunks inputProof title priority dueDate category tags color =
     (if \<not> length encryptedChunks > 0 then Inl (Revert ''Empty task'')
      else if \<not> length encryptedChunks \<le> MAX_CHUNKS_PER_TASK then Inl (Revert ''Task too large'')
      else if \<not> totalTasks (userStats s sender) < MAX_TASKS_PER_USER
        then Inl (Revert ''Max tasks reached'')
      else if \<not> length title > 0 then Inl (Revert ''Title required'')
      else
        (case convertChunks fx encryptedChunks inputProof of
           Inl e \<Rightarrow> Inl e
         | Inr chunks \<Rightarrow>
            (let taskId = length (userTasks s sender);
                 task = \<lparr>task_id = taskId, task_owner = sender,
                         task_encryptedDescription = chunks, task_title = title,
                         task_status = Todo, task_priority = priority, task_dueDate = dueDate,
                         task_category = category, task_tags = tags, task_createdAt = now,
                         task_updatedAt = now, task_completedAt = 0,
                         task_chunkCount = of_nat (length encryptedChunks),
                         task_isArchived = False, task_isFavorite = False, task_color = color\<rparr>;
                 st = userStats s sender
             in (case checked_add (totalTasks st) 1 of
                   Inl e \<Rightarrow> Inl e
                 | Inr tot \<Rightarrow>
                (case checked_add (todoTasks st) 1 of
                   Inl e \<Rightarrow> Inl e
                 | Inr td \<Rightarrow>
                (case checked_add (totalStorage st) (length encryptedChunks) of
                   Inl e \<Rightarrow> Inl e
                 | Inr stor \<Rightarrow>
                    Inr (s\<lparr>userTasks := (userTasks s)(sender := userTasks s sender @ [task]),
                           userStats := (userStats s)(sender :=
                             st\<lparr>totalTasks := tot, todoTasks := td, totalStorage := stor\<rparr>),
                           tasksByCategory :=
                             (if length category > 0
                              then (tasksByCategory s)(sender :=
                                     (tasksByCategory s sender)(category :=
                                        tasksByCategory s sender category @ [taskId]))
                              else tasksByCategory s),
                           tasksByTag := (tasksByTag s)(sender :=
                             indexTags (tasksByTag s sender) tags taskId)\<rparr>,
                         taskId)))))))"

text \<open>\<^verbatim>\<open>updateTask\<close>, with the modifier \<^verbatim>\<open>taskExists(taskId)\<close> first.\<close>

definition updateTask ::
  "fhe \<Rightarrow> tasks_state \<Rightarrow> address \<Rightarrow> uint256 \<Rightarrow> uint256 \<Rightarrow> externalEuint32 list \<Rightarrow> bytes \<Rightarrow>
   string \<Rightarrow> Priority \<Rightarrow> uint256 \<Rightarrow> string \<Rightarrow> string list \<Rightarrow> string \<Rightarrow> error + tasks_state" where
  "updateTask fx s sender now taskId encryptedChunks inputProof title priority dueDate category tags color =
     (if \<not> taskId < length (userTasks s sender) then Inl (Revert ''Task does not exist'')
      else if \<not> length encryptedChunks > 0 then Inl (Revert ''Empty task'')
      else if \<not> length encryptedChunks \<le> MAX_CHUNKS_PER_TASK then Inl (Revert ''Task too large'')
      else if \<not> length title > 0 then Inl (Revert ''Title required'')
      else
        (let task = userTasks s sender ! taskId;
             st = userStats s sender
         in (case checked_sub (totalStorage st) (unat (task_chunkCount task)) of
               Inl e \<Rightarrow> Inl e
             | Inr storage1 \<Rightarrow>
            (case checked_add storage1 (length encryptedChunks) of
               Inl e \<Rightarrow> Inl e
             | Inr storage2 \<Rightarrow>
            (case convertChunks fx encryptedChunks inputProof of
               Inl e \<Rightarrow> Inl e
             | Inr chunks \<Rightarrow>
                Inr (s\<lparr>userStats := (userStats s)(sender := st\<lparr>totalStorage := storage2\<rparr>),
                       userTasks := (userTasks s)(sender := (userTasks s sender)[taskId :=
                         task\<lparr>task_encryptedDescription := chunks, task_title := title,
                              task_priority := priority, task_dueDate := dueDate,
                              task_category := category, task_tags := tags, task_color := color,
                              task_chunkCount := of_nat (length encryptedChunks),
                              task_updatedAt := now\<rparr>])\<rparr>))))))"

text \<open>\<^verbatim>\<open>deleteTask\<close>.\<close>

definition deleteTask :: "tasks_state \<Rightarrow> address \<Rightarrow> uint256 \<Rightarrow> error + tasks_state" where
  "deleteTask s sender taskId =
     (if \<not> taskId < length (userTasks s sender) then Inl (Revert ''Task does not exist'')
      else
        (let task = userTasks s sender ! taskId;
             st = userStats s sender
         in (case checked_sub (totalStorage st) (unat (task_chunkCount task)) of
               Inl e \<Rightarrow> Inl e
             | Inr storage \<Rightarrow>
            (case decStatusCounter (st\<lparr>totalStorage := storage\<rparr>) (task_status task) of
               Inl e \<Rightarrow> Inl e
             | Inr st1 \<Rightarrow>
            (case (if task_isArchived task then checked_sub (archivedTasks st1) 1
                   else Inr (archivedTasks st1)) of
               Inl e \<Rightarrow> Inl e
             | Inr archived \<Rightarrow>
            (case (if task_isFavorite task then checked_sub (favoriteTasks st1) 1
                   else Inr (favoriteTasks st1)) of
               Inl e \<Rightarrow> Inl e
             | Inr favorite \<Rightarrow>
                Inr (s\<lparr>userStats := (userStats s)(sender :=
                         st1\<lparr>archivedTasks := archived, favoriteTasks := favorite\<rparr>),
                       userTasks := (userTasks s)(sender := (userTasks s sender)[taskId :=
                         task\<lparr>task_encryptedDescription := [], task_owner := 0\<rparr>])\<rparr>)))))))"

text \<open>\<^verbatim>\<open>updateTaskStatus\<close>.\<close>

definition updateTaskStatus ::
  "tasks_state \<Rightarrow> address \<Rightarrow> uint256 \<Rightarrow> uint256 \<Rightarrow> TaskStatus \<Rightarrow> error + tasks_state" where
  "updateTaskStatus s sender now taskId newStatus =
     (if \<not> taskId < length (userTasks s sender) then Inl (Revert ''Task does not exist'')
      else
        (let task = userTasks s sender ! taskId;
             st = userStats s sender
         in if \<not> task_owner task \<noteq> 0 then Inl (Revert ''Task deleted'')
            else if task_status task \<noteq> newStatus then
              (case decStatusCounter st (task_status task) of
                 Inl e \<Rightarrow> Inl e
               | Inr st1 \<Rightarrow>
              (case incStatusCounter st1 newStatus of
                 Inl e \<Rightarrow> Inl e
               | Inr st2 \<Rightarrow>
                  Inr (s\<lparr>userStats := (userStats s)(sender := st2),
                         userTasks := (userTasks s)(sender := (userTasks s sender)[taskId :=
                           task\<lparr>task_completedAt := (if newStatus = Completed then now else 0),
                                task_status := newStatus, task_updatedAt := now\<rparr>])\<rparr>)))
            else Inr s))"

text \<open>\<^verbatim>\<open>updateTaskPriority\<close>.\<close>

definition updateTaskPriority ::
  "tasks_state \<Rightarrow> address \<Rightarrow> uint256 \<Rightarrow> uint256 \<Rightarrow> Priority \<Rightarrow> error + tasks_state" where
  "updateTaskPriority s sender now taskId newPriority =
     (if \<not> taskId < length (userTasks s sender) then Inl (Revert ''Task does not exist'')
      else
        (let task = userTasks s sender ! taskId
         in if \<not> task_owner task \<noteq> 0 then Inl (Revert ''Task deleted'')
            else if task_priority task \<noteq> newPriority then
              Inr (s\<lparr>userTasks := (userTasks s)(sender := (userTasks s sender)[taskId :=
                      task\<lparr>task_priority := newPriority, task_updatedAt := now\<rparr>])\<rparr>)
            else Inr s))"

text \<open>\<^verbatim>\<open>setArchived\<close>.\<close>

definition setArchived ::
  "tasks_state \<Rightarrow> address \<Rightarrow> uint256 \<Rightarrow> uint256 \<Rightarrow> bool \<Rightarrow> error + tasks_state" where
  "setArchived s sender now taskId archived =
     (if \<not> taskId < length (userTasks s sender) then Inl (Revert ''Task does not exist'')
      else
        (let task = userTasks s sender ! taskId;
             st = userStats s sender
         in if \<not> task_owner task \<noteq> 0 then Inl (Revert ''Task deleted'')
            else if task_isArchived task \<noteq> archived then
              (case (if archived then checked_add (archivedTasks st) 1
                     else checked_sub (archivedTasks st) 1) of
                 Inl e \<Rightarrow> Inl e
               | Inr n \<Rightarrow>
                  Inr (s\<lparr>userTasks := (userTasks s)(sender := (userTasks s sender)[taskId :=
                           task\<lparr>task_isArchived := archived, task_updatedAt := now\<rparr>]),
                         userStats := (userStats s)(sender := st\<lparr>archivedTasks := n\<rparr>)\<rparr>))
            else Inr s))"

text \<open>\<^verbatim>\<open>setFavorite\<close>.\<close>

definition setFavorite ::
  "tasks_state \<Rightarrow> address \<Rightarrow> uint256 \<Rightarrow> uint256 \<Rightarrow> bool \<Rightarrow> error + tasks_state" where
  "setFavorite s sender now taskId favorite =
     (if \<not> taskId < length (userTasks s sender) then Inl (Revert ''Task does not exist'')
      else
        (let task = userTasks s sender ! taskId;
             st = userStats s sender
         in if \<not> task_owner task \<noteq> 0 then Inl (Revert ''Task deleted'')
            else if task_isFavorite task \<noteq> favorite then
              (case (if favorite then checked_add (favoriteTasks st) 1
                     else checked_sub (favoriteTasks st) 1) of
                 Inl e \<Rightarrow> Inl e
               | Inr n \<Rightarrow>
                  Inr (s\<lparr>userTasks := (userTasks s)(sender := (userTasks s sender)[taskId :=
                           task\<lparr>task_isFavorite := favorite, task_updatedAt := now\<rparr>]),
                         userStats := (userStats s)(sender := st\<lparr>favoriteTasks := n\<rparr>)\<rparr>))
            else Inr s))"

text \<open>
  \<^verbatim>\<open>shareTask\<close>. The loop over the chunks only calls \<^verbatim>\<open>FHE.allow\<close>; the storage write is
  the \<^verbatim>\<open>push\<close> onto the recipient's list.
\<close>

definition shareTask :: "tasks_state \<Rightarrow> address \<Rightarrow> uint256 \<Rightarrow> address \<Rightarrow> error + tasks_state" where
  "shareTask s sender taskId recipient =
     (if \<not> taskId < length (userTasks s sender) then Inl (Revert ''Task does not exist'')
      else if \<not> recipient \<noteq> 0 then Inl (Revert ''Invalid recipient'')
      else if \<not> recipient \<noteq> sender then Inl (Revert ''Cannot share with yourself'')
      else
        (let task = userTasks s sender ! taskId
         in if \<not> task_owner task \<noteq> 0 then Inl (Revert ''Task deleted'')
            else Inr (s\<lparr>sharedWithMe := (sharedWithMe s)(recipient :=
                          sharedWithMe s recipient @
                            [\<lparr>ref_owner = sender, ref_taskId = taskId\<rparr>])\<rparr>)))"

text \<open>
  \<^verbatim>\<open>getSharedTasks\<close>: the result array is allocated with one zero-initialised slot per
  reference (\<^verbatim>\<open>new TaskMetadata[](refs.length)\<close>), and slot \<open>i\<close> is written only when the
  record of reference \<open>i\<close> has a non-zero owner.
\<close>

definition zeroMetadata :: TaskMetadata where
  "zeroMetadata = \<lparr>md_id = 0, md_title = [], md_status = Todo, md_priority = Low, md_dueDate = 0,
     md_category = [], md_tags = [], md_createdAt = 0, md_updatedAt = 0, md_completedAt = 0,
     md_chunkCount = 0, md_isArchived = False, md_isFavorite = False, md_color = [],
     md_owner = 0\<rparr>"

definition sharedMetadata :: "SharedTaskReference \<Rightarrow> Task \<Rightarrow> TaskMetadata" where
  "sharedMetadata r task = \<lparr>md_id = ref_taskId r, md_title = task_title task,
     md_status = task_status task, md_priority = task_priority task,
     md_dueDate = task_dueDate task, md_category = task_category task, md_tags = task_tags task,
     md_createdAt = task_createdAt task, md_updatedAt = task_updatedAt task,
     md_completedAt = task_completedAt task, md_chunkCount = task_chunkCount task,
     md_isArchived = task_isArchived task, md_isFavorite = task_isFavorite task,
     md_color = task_color task, md_owner = ref_owner r\<rparr>"

function getSharedTasks_loop ::
  "tasks_state \<Rightarrow> SharedTaskReference list \<Rightarrow> nat \<Rightarrow> TaskMetadata list \<Rightarrow> error + TaskMetadata list" where
  "getSharedTasks_loop s refs i metadata =
     (if i < length refs then
        (if \<not> ref_taskId (refs ! i) < length (userTasks s (ref_owner (refs ! i))) then Inl Panic
         else
           (let task = userTasks s (ref_owner (refs ! i)) ! ref_taskId (refs ! i)
            in if task_owner task \<noteq> 0
               then getSharedTasks_loop s refs (Suc i)
                      (metadata[i := sharedMetadata (refs ! i) task])
               else getSharedTasks_loop s refs (Suc i) metadata))
      else Inr metadata)"
  by pat_completeness auto
termination
  by (relation "measure (\<lambda>(s, refs, i, metadata). length refs - i)") auto

definition getSharedTasks :: "tasks_state \<Rightarrow> address \<Rightarrow> error + TaskMetadata list" where
  "getSharedTasks s sender =
     (let refs = sharedWithMe s sender
      in getSharedTasks_loop s refs 0 (replicate (length refs) zeroMetadata))"



definition getMyStats :: "tasks_state \<Rightarrow> address \<Rightarrow> UserStats" where
  "getMyStats s sender = userStats s sender"

subsection \<open>Transactions\<close>

text \<open>
  A transaction is a call of one external function by a sender at a block time. A
  transaction that aborts changes nothing; \<open>run\<close> applies a list of transactions in order.
\<close>

datatype call =
    CreateTask "externalEuint32 list" bytes string Priority uint256 string "string list" string
  | UpdateTask uint256 "externalEuint32 list" bytes string Priority uint256 string "string list" string
  | DeleteTask uint256
  | UpdateTaskStatus uint256 TaskStatus
  | UpdateTaskPriority uint256 Priority
  | SetArchived uint256 bool
  | SetFavorite uint256 bool
  | ShareTask uint256 address

datatype tx = Tx address uint256 call

fun exec :: "fhe \<Rightarrow> tasks_state \<Rightarrow> tx \<Rightarrow> error + tasks_state" where
  "exec fx s (Tx sender now (CreateTask chunks inputProof title priority dueDate category tags color)) =
     (case createTask fx s sender now chunks inputProof title priority dueDate category tags color of
        Inl e \<Rightarrow> Inl e
      | Inr r \<Rightarrow> Inr (fst r))"
| "exec fx s (Tx sender now (UpdateTask taskId chunks inputProof title priority dueDate category tags color)) =
     updateTask fx s sender now taskId chunks inputProof title priority dueDate category tags color"
| "exec fx s (Tx sender now (DeleteTask taskId)) = deleteTask s sender taskId"
| "exec fx s (Tx sender now (UpdateTaskStatus taskId newStatus)) =
     updateTaskStatus s sender now taskId newStatus"
| "exec fx s (Tx sender now (UpdateTaskPriority taskId newPriority)) =
     updateTaskPriority s sender now taskId newPriority"
| "exec fx s (Tx sender now (SetArchived taskId archived)) = setArchived s sender now taskId archived"
| "exec fx s (Tx sender now (SetFavorite taskId favorite)) = setFavorite s sender now taskId favorite"
| "exec fx s (Tx sender now (ShareTask taskId recipient)) = shareTask s sender taskId recipient"

definition step :: "fhe \<Rightarrow> tasks_state \<Rightarrow> tx \<Rightarrow> tasks_state" where
  "step fx s t = (case exec fx s t of Inl e \<Rightarrow> s | Inr s' \<Rightarrow> s')"

fun run :: "fhe \<Rightarrow> tasks_state \<Rightarrow> tx list \<Rightarrow> tasks_state" where
  "run fx s [] = s"
| "run fx s (t # ts) = run fx (step fx s t) ts"

text \<open>A record is live when its owner is not the zero address.\<close>

definition live :: "Task \<Rightarrow> bool" where
  "live task = (task_owner task \<noteq> 0)"

definition liveWith :: "TaskStatus \<Rightarrow> Task list \<Rightarrow> nat" where
  "liveWith x tasks = length (filter (\<lambda>task. live task \<and> task_status task = x) tasks)"

definition liveCount :: "Task list \<Rightarrow> nat" where
  "liveCount tasks = length (filter live tasks)"

definition deletedCount :: "Task list \<Rightarrow> nat" where
  "deletedCount tasks = length (filter (\<lambda>task. \<not> live task) tasks)"

definition liveChunks :: "Task list \<Rightarrow> nat" where
  "liveChunks tasks = sum_list (map (\<lambda>task. unat (task_chunkCount task)) (filter live tasks))"

section \<open>EncryptedFeedback: storage\<close>

datatype Sentiment = Positive | Neutral | Negative
datatype BoxCategory = Team | Product | Event | Course | General

record FeedbackBox =
  box_id :: uint256
  box_owner :: address
  box_title :: string
  box_description :: string
  box_category :: BoxCategory
  box_isActive :: bool
  box_createdAt :: uint256
  box_closedAt :: uint256
  box_submissionCount :: uint256
  box_allowRatings :: bool
  box_allowSentiment :: bool

record Feedback =
  fb_id :: uint256
  fb_boxId :: uint256
  fb_encryptedContent :: "euint32 list"
  fb_rating :: uint8
  fb_sentiment :: Sentiment
  fb_submittedAt :: uint256
  fb_isRead :: bool
  fb_chunkCount :: uint8

record BoxStats =
  totalSubmissions :: uint256
  unreadCount :: uint256
  avgRating :: uint256
  positiveCount :: uint256
  neutralCount :: uint256
  negativeCount :: uint256

record feedback_state =
  ownerBoxes :: "address \<Rightarrow> FeedbackBox list"
  boxFeedback :: "uint256 \<Rightarrow> uint256 \<Rightarrow> Feedback"
  feedbackCountPerBox :: "uint256 \<Rightarrow> uint256"
  boxOwners :: "uint256 \<Rightarrow> address"
  globalBoxCounter :: uint256

definition MAX_CHUNKS_PER_FEEDBACK :: nat where
  "MAX_CHUNKS_PER_FEEDBACK = 128"

definition MAX_BOXES_PER_OWNER :: nat where
  "MAX_BOXES_PER_OWNER = 100"

definition zeroFeedback :: Feedback where
  "zeroFeedback = \<lparr>fb_id = 0, fb_boxId = 0, fb_encryptedContent = [], fb_rating = 0,
     fb_sentiment = Positive, fb_submittedAt = 0, fb_isRead = False, fb_chunkCount = 0\<rparr>"

definition feedback_init :: feedback_state where
  "feedback_init = \<lparr>ownerBoxes = (\<lambda>_. []), boxFeedback = (\<lambda>_ _. zeroFeedback),
     feedbackCountPerBox = (\<lambda>_. 0), boxOwners = (\<lambda>_. 0), globalBoxCounter = 0\<rparr>"

section \<open>EncryptedFeedback: functions\<close>

text \<open>
  The loop of \<^verbatim>\<open>_findBox\<close> and of the modifier \<^verbatim>\<open>boxIsActive\<close>: the index of the first box
  of the array whose id is \<open>globalBoxId\<close>, searching from index \<open>i\<close>.
\<close>

function findBox_loop :: "FeedbackBox list \<Rightarrow> uint256 \<Rightarrow> nat \<Rightarrow> nat option" where
  "findBox_loop boxes globalBoxId i =
     (if i < length boxes then
        (if box_id (boxes ! i) = globalBoxId then Some i
         else findBox_loop boxes globalBoxId (Suc i))
      else None)"
  by pat_completeness auto
termination
  by (relation "measure (\<lambda>(boxes, globalBoxId, i). length boxes - i)") auto

text \<open>\<^verbatim>\<open>_findBox\<close>: the storage reference is the index into the owner's array.\<close>

definition findBox :: "feedback_state \<Rightarrow> address \<Rightarrow> uint256 \<Rightarrow> error + nat" where
  "findBox s owner globalBoxId =
     (case findBox_loop (ownerBoxes s owner) globalBoxId 0 of
        Some i \<Rightarrow> Inr i
      | None \<Rightarrow> Inl (Revert ''Box not found''))"

text \<open>The modifier \<^verbatim>\<open>boxIsActive\<close>: \<open>None\<close> when every \<^verbatim>\<open>require\<close> passes.\<close>

definition boxIsActive :: "feedback_state \<Rightarrow> uint256 \<Rightarrow> error option" where
  "boxIsActive s globalBoxId =
     (let owner = boxOwners s globalBoxId
      in if \<not> owner \<noteq> 0 then Some (Revert ''Box does not exist'')
         else
           (case findBox_loop (ownerBoxes s owner) globalBoxId 0 of
              Some i \<Rightarrow>
                (if \<not> box_isActive (ownerBoxes s owner ! i) then Some (Revert ''Box is closed'')
                 else None)
            | None \<Rightarrow> Some (Revert ''Box not found'')))"

text \<open>\<^verbatim>\<open>createBox\<close>.\<close>

definition createBox ::
  "feedback_state \<Rightarrow> address \<Rightarrow> uint256 \<Rightarrow> string \<Rightarrow> string \<Rightarrow> BoxCategory \<Rightarrow> bool \<Rightarrow> bool \<Rightarrow>
   error + (feedback_state \<times> uint256)" where
  "createBox s sender now title description category allowRatings allowSentiment =
     (if \<not> length (ownerBoxes s sender) < MAX_BOXES_PER_OWNER then Inl (Revert ''Max boxes reached'')
      else if \<not> length title > 0 then Inl (Revert ''Title required'')
      else
        (case checked_add (globalBoxCounter s) 1 of
           Inl e \<Rightarrow> Inl e
         | Inr counter \<Rightarrow>
            (let globalBoxId = globalBoxCounter s;
                 newBox = \<lparr>box_id = globalBoxId, box_owner = sender, box_title = title,
                           box_description = description, box_category = category,
                           box_isActive = True, box_createdAt = now, box_closedAt = 0,
                           box_submissionCount = 0, box_allowRatings = allowRatings,
                           box_allowSentiment = allowSentiment\<rparr>
             in Inr (s\<lparr>globalBoxCounter := counter,
                       ownerBoxes := (ownerBoxes s)(sender := ownerBoxes s sender @ [newBox]),
                       boxOwners := (boxOwners s)(globalBoxId := sender)\<rparr>,
                     globalBoxId))))"

text \<open>\<^verbatim>\<open>closeBox\<close>, \<^verbatim>\<open>reopenBox\<close> and \<^verbatim>\<open>updateBox\<close>, each with the modifier \<^verbatim>\<open>boxExists(boxId)\<close>.\<close>

definition closeBox :: "feedback_state \<Rightarrow> address \<Rightarrow> uint256 \<Rightarrow> uint256 \<Rightarrow> error + feedback_state" where
  "closeBox s sender now boxId =
     (if \<not> boxId < length (ownerBoxes s sender) then Inl (Revert ''Box does not exist'')
      else
        (let box = ownerBoxes s sender ! boxId
         in if \<not> box_isActive box then Inl (Revert ''Box already closed'')
            else Inr (s\<lparr>ownerBoxes := (ownerBoxes s)(sender := (ownerBoxes s sender)[boxId :=
                          box\<lparr>box_isActive := False, box_closedAt := now\<rparr>])\<rparr>)))"

definition reopenBox :: "feedback_state \<Rightarrow> address \<Rightarrow> uint256 \<Rightarrow> error + feedback_state" where
  "reopenBox s sender boxId =
     (if \<not> boxId < length (ownerBoxes s sender) then Inl (Revert ''Box does not exist'')
      else
        (let box = ownerBoxes s sender ! boxId
         in if \<not> \<not> box_isActive box then Inl (Revert ''Box already active'')
            else Inr (s\<lparr>ownerBoxes := (ownerBoxes s)(sender := (ownerBoxes s sender)[boxId :=
                          box\<lparr>box_isActive := True, box_closedAt := 0\<rparr>])\<rparr>)))"

definition updateBox ::
  "feedback_state \<Rightarrow> address \<Rightarrow> uint256 \<Rightarrow> string \<Rightarrow> string \<Rightarrow> error + feedback_state" where
  "updateBox s sender boxId title description =
     (if \<not> boxId < length (ownerBoxes s sender) then Inl (Revert ''Box does not exist'')
      else
        (let box = ownerBoxes s sender ! boxId;
             box1 = (if length title > 0 then box\<lparr>box_title := title\<rparr> else box)
         in Inr (s\<lparr>ownerBoxes := (ownerBoxes s)(sender := (ownerBoxes s sender)[boxId :=
                     box1\<lparr>box_description := description\<rparr>])\<rparr>)))"

text \<open>\<^verbatim>\<open>submitFeedback\<close>, with the modifier \<^verbatim>\<open>boxIsActive(globalBoxId)\<close> first.\<close>

definition submitFeedback ::
  "fhe \<Rightarrow> feedback_state \<Rightarrow> uint256 \<Rightarrow> uint256 \<Rightarrow> externalEuint32 list \<Rightarrow> bytes \<Rightarrow> uint8 \<Rightarrow> Sentiment \<Rightarrow>
   error + (feedback_state \<times> uint256)" where
  "submitFeedback fx s now globalBoxId encryptedChunks inputProof rating sentiment =
     (case boxIsActive s globalBoxId of
        Some e \<Rightarrow> Inl e
      | None \<Rightarrow>
         (if \<not> (length encryptedChunks > 0 \<and> length encryptedChunks \<le> MAX_CHUNKS_PER_FEEDBACK)
          then Inl (Revert ''Invalid chunk count'')
          else
            (let owner = boxOwners s globalBoxId
             in (case findBox s owner globalBoxId of
                   Inl e \<Rightarrow> Inl e
                 | Inr i \<Rightarrow>
                    (let box = ownerBoxes s owner ! i
                     in if box_allowRatings box \<and> \<not> rating \<le> 5 then Inl (Revert ''Rating must be 0-5'')
                        else
                          (let rating1 = (if box_allowRatings box then rating else 0);
                               feedbackId = feedbackCountPerBox s globalBoxId
                           in (case checked_add (feedbackCountPerBox s globalBoxId) 1 of
                                 Inl e \<Rightarrow> Inl e
                               | Inr count \<Rightarrow>
                              (case convertChunks fx encryptedChunks inputProof of
                                 Inl e \<Rightarrow> Inl e
                               | Inr chunks \<Rightarrow>
                              (case checked_add (box_submissionCount box) 1 of
                                 Inl e \<Rightarrow> Inl e
                               | Inr submissions \<Rightarrow>
                                  (let old = boxFeedback s globalBoxId feedbackId;
                                       newFeedback = old\<lparr>fb_id := feedbackId,
                                         fb_boxId := globalBoxId, fb_rating := rating1,
                                         fb_sentiment := sentiment, fb_submittedAt := now,
                                         fb_isRead := False,
                                         fb_chunkCount := of_nat (length encryptedChunks),
                                         fb_encryptedContent := fb_encryptedContent old @ chunks\<rparr>
                                   in Inr (s\<lparr>feedbackCountPerBox :=
                                               (feedbackCountPerBox s)(globalBoxId := count),
                                             boxFeedback := (boxFeedback s)(globalBoxId :=
                                               (boxFeedback s globalBoxId)(feedbackId := newFeedback)),
                                             ownerBoxes := (ownerBoxes s)(owner :=
                                               (ownerBoxes s owner)[i :=
                                                  box\<lparr>box_submissionCount := submissions\<rparr>])\<rparr>,
                                           feedbackId)))))))))))"

text \<open>\<^verbatim>\<open>markAsRead\<close> and \<^verbatim>\<open>deleteFeedback\<close>, each with the modifier \<^verbatim>\<open>onlyBoxOwner\<close>.\<close>

definition markAsRead :: "feedback_state \<Rightarrow> address \<Rightarrow> uint256 \<Rightarrow> uint256 \<Rightarrow> error + feedback_state" where
  "markAsRead s sender globalBoxId feedbackId =
     (if \<not> boxOwners s globalBoxId = sender then Inl (Revert ''Not box owner'')
      else
        (let feedback = boxFeedback s globalBoxId feedbackId
         in if \<not> fb_submittedAt feedback > 0 then Inl (Revert ''Feedback does not exist'')
            else Inr (s\<lparr>boxFeedback := (boxFeedback s)(globalBoxId :=
                          (boxFeedback s globalBoxId)(feedbackId :=
                             feedback\<lparr>fb_isRead := True\<rparr>))\<rparr>)))"

definition deleteFeedback :: "feedback_state \<Rightarrow> address \<Rightarrow> uint256 \<Rightarrow> uint256 \<Rightarrow> error + feedback_state" where
  "deleteFeedback s sender globalBoxId feedbackId =
     (if \<not> boxOwners s globalBoxId = sender then Inl (Revert ''Not box owner'')
      else
        (let feedback = boxFeedback s globalBoxId feedbackId
         in if \<not> fb_submittedAt feedback > 0 then Inl (Revert ''Feedback does not exist'')
            else Inr (s\<lparr>boxFeedback := (boxFeedback s)(globalBoxId :=
                          (boxFeedback s globalBoxId)(feedbackId :=
                             feedback\<lparr>fb_encryptedContent := [], fb_chunkCount := 0,
                                      fb_submittedAt := 0\<rparr>))\<rparr>)))"

text \<open>
  \<^verbatim>\<open>getBoxStats\<close>. The local counters of the loop are the fields of \<open>scan\<close>; the loop body
  for one entry that is not deleted is \<open>scanEntry\<close>.
\<close>

record scan =
  acc_totalRating :: uint256
  acc_ratedCount :: uint256
  acc_positive :: uint256
  acc_neutral :: uint256
  acc_negative :: uint256
  acc_unread :: uint256
  acc_activeCount :: uint256

definition zeroScan :: scan where
  "zeroScan = \<lparr>acc_totalRating = 0, acc_ratedCount = 0, acc_positive = 0, acc_neutral = 0,
     acc_negative = 0, acc_unread = 0, acc_activeCount = 0\<rparr>"

definition scanEntry :: "Feedback \<Rightarrow> scan \<Rightarrow> error + scan" where
  "scanEntry feedback a =
     (case checked_add (acc_activeCount a) 1 of
        Inl e \<Rightarrow> Inl e
      | Inr active \<Rightarrow>
     (case (if fb_rating feedback > 0
            then (case checked_add (acc_totalRating a) (unat (fb_rating feedback)) of
                    Inl e \<Rightarrow> Inl e
                  | Inr total1 \<Rightarrow>
                     (case checked_add (acc_ratedCount a) 1 of
                        Inl e \<Rightarrow> Inl e
                      | Inr rated \<Rightarrow>
                         Inr (a\<lparr>acc_activeCount := active, acc_totalRating := total1,
                                acc_ratedCount := rated\<rparr>)))
            else Inr (a\<lparr>acc_activeCount := active\<rparr>)) of
        Inl e \<Rightarrow> Inl e
      | Inr a1 \<Rightarrow>
     (case (if fb_sentiment feedback = Positive
            then (case checked_add (acc_positive a1) 1 of
                    Inl e \<Rightarrow> Inl e | Inr n \<Rightarrow> Inr (a1\<lparr>acc_positive := n\<rparr>))
            else if fb_sentiment feedback = Neutral
            then (case checked_add (acc_neutral a1) 1 of
                    Inl e \<Rightarrow> Inl e | Inr n \<Rightarrow> Inr (a1\<lparr>acc_neutral := n\<rparr>))
            else (case checked_add (acc_negative a1) 1 of
                    Inl e \<Rightarrow> Inl e | Inr n \<Rightarrow> Inr (a1\<lparr>acc_negative := n\<rparr>))) of
        Inl e \<Rightarrow> Inl e
      | Inr a2 \<Rightarrow>
         (if \<not> fb_isRead feedback
          then (case checked_add (acc_unread a2) 1 of
                  Inl e \<Rightarrow> Inl e | Inr n \<Rightarrow> Inr (a2\<lparr>acc_unread := n\<rparr>))
          else Inr a2))))"

function getBoxStats_loop ::
  "(uint256 \<Rightarrow> Feedback) \<Rightarrow> uint256 \<Rightarrow> uint256 \<Rightarrow> scan \<Rightarrow> error + scan" where
  "getBoxStats_loop fbs count i a =
     (if i < count then
        (case (if fb_submittedAt (fbs i) > 0 then scanEntry (fbs i) a else Inr a) of
           Inl e \<Rightarrow> Inl e
         | Inr a1 \<Rightarrow>
            (if i + 1 \<le> MAX_UINT256 then getBoxStats_loop fbs count (i + 1) a1 else Inl Panic))
      else Inr a)"
  by pat_completeness auto
termination
  by (relation "measure (\<lambda>(fbs, count, i, a). count - i)") auto

definition getBoxStats :: "feedback_state \<Rightarrow> uint256 \<Rightarrow> error + BoxStats" where
  "getBoxStats s globalBoxId =
     (let count = feedbackCountPerBox s globalBoxId
      in (case getBoxStats_loop (boxFeedback s globalBoxId) count 0 zeroScan of
            Inl e \<Rightarrow> Inl e
          | Inr a \<Rightarrow>
         (case (if acc_ratedCount a > 0
                then (case checked_mul (acc_totalRating a) 100 of
                        Inl e \<Rightarrow> Inl e
                      | Inr m \<Rightarrow> Inr (m div acc_ratedCount a))
                else Inr 0) of
            Inl e \<Rightarrow> Inl e
          | Inr avg \<Rightarrow>
             Inr \<lparr>totalSubmissions = acc_activeCount a, unreadCount = acc_unread a,
                  avgRating = avg, positiveCount = acc_positive a,
                  neutralCount = acc_neutral a, negativeCount = acc_negative a\<rparr>)))"

subsection \<open>Transactions\<close>

datatype fcall =
    CreateBox string string BoxCategory bool bool
  | CloseBox uint256
  | ReopenBox uint256
  | UpdateBox uint256 string string
  | SubmitFeedback uint256 "externalEuint32 list" bytes uint8 Sentiment
  | MarkAsRead uint256 uint256
  | DeleteFeedback uint256 uint256

datatype ftx = FTx address uint256 fcall

fun fexec :: "fhe \<Rightarrow> feedback_state \<Rightarrow> ftx \<Rightarrow> error + feedback_state" where
  "fexec fx s (FTx sender now (CreateBox title description category allowRatings allowSentiment)) =
     (case createBox s sender now title description category allowRatings allowSentiment of
        Inl e \<Rightarrow> Inl e
      | Inr r \<Rightarrow> Inr (fst r))"
| "fexec fx s (FTx sender now (CloseBox boxId)) = closeBox s sender now boxId"
| "fexec fx s (FTx sender now (ReopenBox boxId)) = reopenBox s sender boxId"
| "fexec fx s (FTx sender now (UpdateBox boxId title description)) =
     updateBox s sender boxId title description"
| "fexec fx s (FTx sender now (SubmitFeedback globalBoxId chunks inputProof rating sentiment)) =
     (case submitFeedback fx s now globalBoxId chunks inputProof rating sentiment of
        Inl e \<Rightarrow> Inl e
      | Inr r \<Rightarrow> Inr (fst r))"
| "fexec fx s (FTx sender now (MarkAsRead globalBoxId feedbackId)) =
     markAsRead s sender globalBoxId feedbackId"
| "fexec fx s (FTx sender now (DeleteFeedback globalBoxId feedbackId)) =
     deleteFeedback s sender globalBoxId feedbackId"

definition fstep :: "fhe \<Rightarrow> feedback_state \<Rightarrow> ftx \<Rightarrow> feedback_state" where
  "fstep fx s t = (case fexec fx s t of Inl e \<Rightarrow> s | Inr s' \<Rightarrow> s')"

fun frun :: "fhe \<Rightarrow> feedback_state \<Rightarrow> ftx list \<Rightarrow> feedback_state" where
  "frun fx s [] = s"
| "frun fx s (t # ts) = frun fx (fstep fx s t) ts"

text \<open>An FHE library that accepts every input proof, for concrete runs.\<close>

definition acceptAll :: fhe where
  "acceptAll c inputProof = Some c"

section \<open>Notions used to state the properties\<close>

text \<open>The counter of \<open>UserStats\<close> that belongs to a status.\<close>

definition statusCounter :: "UserStats \<Rightarrow> TaskStatus \<Rightarrow> uint256" where
  "statusCounter st x =
     (case x of Todo \<Rightarrow> todoTasks st | InProgress \<Rightarrow> inProgressTasks st
      | Completed \<Rightarrow> completedTasks st)"

text \<open>
  A transaction is \<open>addressed\<close> in a state when its sender is not the zero address (no
  account has it) and, if it is a \<^verbatim>\<open>deleteTask\<close> or an \<^verbatim>\<open>updateTask\<close>, its target is not a
  record that was already deleted. A list of transactions is addressed when each one is,
  in the state it is executed in.
\<close>

fun addressed :: "tasks_state \<Rightarrow> tx \<Rightarrow> bool" where
  "addressed s (Tx sender now (DeleteTask taskId)) =
     (sender \<noteq> 0 \<and> \<not> (taskId < length (userTasks s sender)
        \<and> \<not> live (userTasks s sender ! taskId)))"
| "addressed s (Tx sender now (UpdateTask taskId chunks inputProof title priority dueDate category tags color)) =
     (sender \<noteq> 0 \<and> \<not> (taskId < length (userTasks s sender)
        \<and> \<not> live (userTasks s sender ! taskId)))"
| "addressed s (Tx sender now c) = (sender \<noteq> 0)"

fun allAddressed :: "fhe \<Rightarrow> tasks_state \<Rightarrow> tx list \<Rightarrow> bool" where
  "allAddressed fx s [] = True"
| "allAddressed fx s (t # ts) = (addressed s t \<and> allAddressed fx (step fx s t) ts)"

text \<open>Every stored reference points into the sequence of the owner it names.\<close>

definition refsValid :: "tasks_state \<Rightarrow> bool" where
  "refsValid s =
     (\<forall>a. \<forall>r \<in> set (sharedWithMe s a). ref_taskId r < length (userTasks s (ref_owner r)))"

text \<open>
  What \<^verbatim>\<open>getSharedTasks\<close> puts into the slot of one reference: the metadata of the record
  when it is live, the zero-initialised struct otherwise.
\<close>

definition sharedSlot :: "tasks_state \<Rightarrow> SharedTaskReference \<Rightarrow> TaskMetadata" where
  "sharedSlot s r =
     (let task = userTasks s (ref_owner r) ! ref_taskId r
      in if task_owner task \<noteq> 0 then sharedMetadata r task else zeroMetadata)"

text \<open>
  The ids of an owner's boxes, in the order of the array, and the consistency of the box
  registry: an owner's ids are pairwise distinct, each was handed out by the global
  counter, and \<open>boxOwners\<close> maps each back to the owner.
\<close>

definition boxIds :: "feedback_state \<Rightarrow> address \<Rightarrow> uint256 list" where
  "boxIds s a = map box_id (ownerBoxes s a)"

definition boxesSound :: "feedback_state \<Rightarrow> bool" where
  "boxesSound s =
     (\<forall>a. distinct (boxIds s a)
        \<and> (\<forall>g \<in> set (boxIds s a). g < globalBoxCounter s \<and> boxOwners s g = a))"

text \<open>
  The box statistics as the specification words them: over the entries of the box that
  are not deleted, the number of entries, of unread entries, of entries of each sentiment,
  and the floor of a hundred times the mean rating of the rated entries.
\<close>

definition liveFeedback :: "feedback_state \<Rightarrow> uint256 \<Rightarrow> Feedback list" where
  "liveFeedback s globalBoxId =
     filter (\<lambda>f. fb_submittedAt f > 0)
       (map (boxFeedback s globalBoxId) [0..<feedbackCountPerBox s globalBoxId])"

definition specAvgRating :: "Feedback list \<Rightarrow> nat" where
  "specAvgRating fs =
     (let rated = filter (\<lambda>f. fb_rating f > 0) fs
      in if length rated > 0
         then (sum_list (map (\<lambda>f. unat (fb_rating f)) rated) * 100) div length rated
         else 0)"

definition specBoxStats :: "Feedback list \<Rightarrow> BoxStats" where
  "specBoxStats fs =
     \<lparr>totalSubmissions = length fs,
      unreadCount = length (filter (\<lambda>f. \<not> fb_isRead f) fs),
      avgRating = specAvgRating fs,
      positiveCount = length (filter (\<lambda>f. fb_sentiment f = Positive) fs),
      neutralCount = length (filter (\<lambda>f. fb_sentiment f = Neutral) fs),
      negativeCount = length (filter (\<lambda>f. fb_sentiment f = Negative) fs)\<rparr>"

subsection \<open>Concrete inputs\<close>

definition alice :: address where
  "alice = 1"

definition bob :: address where
  "bob = 2"

definition carol :: address where
  "carol = 3"

text \<open>Alice creates a task of three chunks; a second one; a task with a category and a tag.\<close>

definition newMilk :: tx where
  "newMilk = Tx alice 100 (CreateTask [7, 8, 9] [] ''Buy milk'' Low 0 [] [] [])"

definition newRent :: tx where
  "newRent = Tx alice 101 (CreateTask [4, 5, 6] [] ''Pay rent'' High 0 [] [] [])"

definition newFiled :: tx where
  "newFiled = Tx alice 100 (CreateTask [7, 8, 9] [] ''Buy milk'' Low 0 ''home'' [''shop''] [])"

definition refile :: tx where
  "refile = Tx alice 102 (UpdateTask 0 [1, 2] [] ''Buy milk'' Low 0 ''work'' [''desk''] [])"

definition rewrite :: tx where
  "rewrite = Tx alice 103 (UpdateTask 0 [1, 2, 3, 4, 5] [] ''Buy milk'' Low 0 [] [] [])"

text \<open>Alice archives, stars and completes her first task.\<close>

definition shelve0 :: tx where
  "shelve0 = Tx alice 101 (SetArchived 0 True)"

definition star0 :: tx where
  "star0 = Tx alice 101 (SetFavorite 0 True)"

definition finish0 :: tx where
  "finish0 = Tx alice 101 (UpdateTaskStatus 0 Completed)"

definition drop0 :: tx where
  "drop0 = Tx alice 102 (DeleteTask 0)"

definition share1 :: tx where
  "share1 = Tx alice 102 (ShareTask 1 bob)"

definition share0 :: tx where
  "share0 = Tx alice 101 (ShareTask 0 bob)"

text \<open>The storage after \<open>n\<close> transactions \<open>newMilk\<close> in a row.\<close>

definition filled :: "nat \<Rightarrow> tasks_state" where
  "filled n =
     tasks_init\<lparr>userTasks := (\<lambda>_. [])(alice :=
         map (\<lambda>i. \<lparr>task_id = i, task_owner = alice, task_encryptedDescription = [7, 8, 9],
                task_title = ''Buy milk'', task_status = Todo, task_priority = Low,
                task_dueDate = 0, task_category = [], task_tags = [], task_createdAt = 100,
                task_updatedAt = 100, task_completedAt = 0, task_chunkCount = 3,
                task_isArchived = False, task_isFavorite = False, task_color = []\<rparr>) [0..<n]),
       userStats := (\<lambda>_. zeroStats)(alice :=
         zeroStats\<lparr>totalTasks := n, todoTasks := n, totalStorage := 3 * n\<rparr>)\<rparr>"

text \<open>Scenario B of the specification: a box that allows ratings and two submissions.\<close>

definition scenarioB :: "ftx list" where
  "scenarioB =
     [FTx alice 100 (CreateBox ''B'' [] General True True),
      FTx bob 101 (SubmitFeedback 0 [5] [] 4 Positive),
      FTx carol 102 (SubmitFeedback 0 [6] [] 0 Negative)]"

text \<open>
  Alice opens a box that allows ratings (id 0) and one that does not (id 1); Bob submits a
  rating of 9 to the second.
\<close>

definition twoBoxes :: "ftx list" where
  "twoBoxes =
     [FTx alice 100 (CreateBox ''Rated'' [] General True True),
      FTx alice 101 (CreateBox ''Plain'' [] General False True)]"

definition nineToPlain :: ftx where
  "nineToPlain = FTx bob 102 (SubmitFeedback 1 [5] [] 9 Positive)"

section \<open>Properties\<close>


subsection \<open>Deleting a task\<close>


lemma decStatusCounter_Inr:
  "decStatusCounter st x = Inr st' \<longleftrightarrow>
     1 \<le> statusCounter st x \<and>
     st' = (case x of Todo \<Rightarrow> st\<lparr>todoTasks := todoTasks st - 1\<rparr>
            | InProgress \<Rightarrow> st\<lparr>inProgressTasks := inProgressTasks st - 1\<rparr>
            | Completed \<Rightarrow> st\<lparr>completedTasks := completedTasks st - 1\<rparr>)"
  by (cases x) (auto simp: decStatusCounter_def statusCounter_def checked_sub_def)

lemma incStatusCounter_Inr:
  "incStatusCounter st x = Inr st' \<longleftrightarrow>
     statusCounter st x + 1 \<le> MAX_UINT256 \<and>
     st' = (case x of Todo \<Rightarrow> st\<lparr>todoTasks := todoTasks st + 1\<rparr>
            | InProgress \<Rightarrow> st\<lparr>inProgressTasks := inProgressTasks st + 1\<rparr>
            | Completed \<Rightarrow> st\<lparr>completedTasks := completedTasks st + 1\<rparr>)"
  by (cases x) (auto simp: incStatusCounter_def statusCounter_def checked_add_def)

lemma decStatusCounter_fields:
  assumes "decStatusCounter st x = Inr st'"
  shows "statusCounter st' y = statusCounter st y - (if y = x then 1 else 0)"
    and "1 \<le> statusCounter st x"
    and "totalTasks st' = totalTasks st"
    and "archivedTasks st' = archivedTasks st"
    and "favoriteTasks st' = favoriteTasks st"
    and "overdueTasks st' = overdueTasks st"
    and "totalStorage st' = totalStorage st"
  using assms by (cases x; cases y; auto simp: decStatusCounter_def statusCounter_def checked_sub_def split: if_splits)+

lemma incStatusCounter_fields:
  assumes "incStatusCounter st x = Inr st'"
  shows "statusCounter st' y = statusCounter st y + (if y = x then 1 else 0)"
    and "totalTasks st' = totalTasks st"
    and "archivedTasks st' = archivedTasks st"
    and "favoriteTasks st' = favoriteTasks st"
    and "overdueTasks st' = overdueTasks st"
    and "totalStorage st' = totalStorage st"
  using assms by (cases x; cases y; auto simp: incStatusCounter_def statusCounter_def checked_add_def split: if_splits)+

lemma statusCounter_frame [simp]:
  "statusCounter (st\<lparr>archivedTasks := a\<rparr>) x = statusCounter st x"
  "statusCounter (st\<lparr>favoriteTasks := b\<rparr>) x = statusCounter st x"
  "statusCounter (st\<lparr>totalStorage := c\<rparr>) x = statusCounter st x"
  "statusCounter (st\<lparr>totalTasks := d\<rparr>) x = statusCounter st x"
  by (simp_all add: statusCounter_def split: TaskStatus.splits)



lemmas sample_defs = alice_def bob_def carol_def newMilk_def newRent_def newFiled_def
  refile_def rewrite_def drop0_def share0_def share1_def shelve0_def star0_def finish0_def
  acceptAll_def

lemmas tasks_defs = step_def createTask_def deleteTask_def updateTask_def shareTask_def
  updateTaskStatus_def updateTaskPriority_def setArchived_def setFavorite_def
  tasks_init_def zeroStats_def checked_add_def checked_sub_def MAX_UINT256_def
  MAX_CHUNKS_PER_TASK_def MAX_TASKS_PER_USER_def decStatusCounter_def
  incStatusCounter_def Let_def



subsection \<open>Operations on deleted records\<close>

text \<open>
  C3 (the code at a failing input). Alice creates two tasks of three chunks and deletes the
  first. Deleting it again, or updating it with five chunks, succeeds and moves
  \<open>totalStorage\<close> to 0 or to 5, while her one live record holds 3 chunks. The deleted
  record keeps its \<open>chunkCount\<close> of 3.
\<close>

theorem storage_after_second_delete:
  "totalStorage (userStats (run acceptAll tasks_init [newMilk, newRent, drop0, drop0]) alice) = 0 \<and>
   liveChunks (userTasks (run acceptAll tasks_init [newMilk, newRent, drop0, drop0]) alice) = 3 \<and>
   totalStorage (userStats (run acceptAll tasks_init [newMilk, newRent, drop0, rewrite]) alice) = 5 \<and>
   liveChunks (userTasks (run acceptAll tasks_init [newMilk, newRent, drop0, rewrite]) alice) = 3 \<and>
   \<not> live (userTasks (run acceptAll tasks_init [newMilk, drop0]) alice ! 0) \<and>
   task_chunkCount (userTasks (run acceptAll tasks_init [newMilk, drop0]) alice ! 0) = 3"
  by (simp add: tasks_defs sample_defs liveChunks_def live_def)

text \<open>
  C4 (the code at a failing input). On a deleted record \<^verbatim>\<open>deleteTask\<close> and \<^verbatim>\<open>updateTask\<close> do
  not fail with \<^verbatim>\<open>"Task deleted"\<close>: they succeed and change the counters and the record,
  where \<^verbatim>\<open>updateTaskStatus\<close> on the same record is refused.
\<close>

theorem deleted_record_still_mutable:
  "\<not> live (userTasks (run acceptAll tasks_init [newMilk, newRent, drop0]) alice ! 0) \<and>
   exec acceptAll (run acceptAll tasks_init [newMilk, newRent, drop0]) drop0
     \<noteq> Inl (Revert ''Task deleted'') \<and>
   userStats (run acceptAll tasks_init [newMilk, newRent, drop0]) alice
     = zeroStats\<lparr>totalTasks := 2, todoTasks := 1, totalStorage := 3\<rparr> \<and>
   userStats (run acceptAll tasks_init [newMilk, newRent, drop0, drop0]) alice
     = zeroStats\<lparr>totalTasks := 2, todoTasks := 0, totalStorage := 0\<rparr> \<and>
   exec acceptAll (run acceptAll tasks_init [newMilk, newRent, drop0]) rewrite
     \<noteq> Inl (Revert ''Task deleted'') \<and>
   task_chunkCount (userTasks (run acceptAll tasks_init [newMilk, newRent, drop0, rewrite]) alice ! 0) = 5 \<and>
   exec acceptAll (run acceptAll tasks_init [newMilk, newRent, drop0])
     (Tx alice 104 (UpdateTaskStatus 0 Completed)) = Inl (Revert ''Task deleted'')"
  by (simp add: tasks_defs sample_defs live_def)


subsection \<open>Quota\<close>

lemma convertChunks_error:
  "convertChunks fx cs inputProof = Inl e \<Longrightarrow> e = ExternalRevert"
  by (induction cs arbitrary: e) (auto split: option.splits sum.splits)

lemma convertChunks_acceptAll [simp]:
  "convertChunks acceptAll cs inputProof = Inr cs"
  by (induction cs) (auto simp: acceptAll_def)

lemma run_append: "run fx s (xs @ ys) = run fx (run fx s xs) ys"
  by (induction xs arbitrary: s) auto

lemma run_snoc: "run fx s (xs @ [t]) = step fx (run fx s xs) t"
  by (simp add: run_append)

lemma createTask_quota_iff:
  "(createTask fx s sender now chunks inputProof title priority dueDate category tags color
      = Inl (Revert ''Max tasks reached''))
   = (0 < length chunks \<and> length chunks \<le> MAX_CHUNKS_PER_TASK
        \<and> MAX_TASKS_PER_USER \<le> totalTasks (userStats s sender))"
  by (auto simp: createTask_def Let_def checked_add_def
      split: sum.splits if_splits dest: convertChunks_error)

lemma exec_length_userTasks:
  "exec fx s t = Inr s' \<Longrightarrow> length (userTasks s a) \<le> length (userTasks s' a)"
proof (cases t)
  case (Tx sender now c)
  assume "exec fx s t = Inr s'"
  with Tx show ?thesis
    by (cases c)
       (auto simp: createTask_def updateTask_def deleteTask_def updateTaskStatus_def
          updateTaskPriority_def setArchived_def setFavorite_def shareTask_def Let_def
          split: sum.splits if_splits)
qed

lemma exec_totalTasks_length:
  assumes "exec fx s t = Inr s'"
    and "totalTasks (userStats s a) = length (userTasks s a)"
  shows "totalTasks (userStats s' a) = length (userTasks s' a)"
proof (cases t)
  case (Tx sender now c)
  with assms show ?thesis
    by (cases c)
       (auto simp: createTask_def updateTask_def deleteTask_def updateTaskStatus_def
          updateTaskPriority_def setArchived_def setFavorite_def shareTask_def Let_def
          checked_add_def decStatusCounter_Inr incStatusCounter_Inr
          split: sum.splits if_splits TaskStatus.splits)
qed

lemma step_totalTasks_length:
  "totalTasks (userStats s a) = length (userTasks s a) \<Longrightarrow>
   totalTasks (userStats (step fx s t) a) = length (userTasks (step fx s t) a)"
  by (auto simp: step_def split: sum.splits dest: exec_totalTasks_length)

lemma run_totalTasks_length:
  "totalTasks (userStats s a) = length (userTasks s a) \<Longrightarrow>
   totalTasks (userStats (run fx s txs) a) = length (userTasks (run fx s txs) a)"
  by (induction txs arbitrary: s) (auto simp: step_totalTasks_length)

lemma deleteTask_totalTasks:
  "deleteTask s sender taskId = Inr s' \<Longrightarrow> totalTasks (userStats s' a) = totalTasks (userStats s a)"
  by (auto simp: deleteTask_def Let_def split: sum.splits if_splits
      dest: decStatusCounter_fields(3))

text \<open>
  C5 (as the code has it). \<^verbatim>\<open>createTask\<close> fails with \<^verbatim>\<open>"Max tasks reached"\<close> exactly when the
  chunk count is valid and the owner's \<open>totalTasks\<close> counter has reached
  \<open>MAX_TASKS_PER_USER\<close>. The counter is not a count of live records: \<^verbatim>\<open>deleteTask\<close> leaves it
  unchanged, and in every state the contract can reach it equals the length of the owner's
  record sequence, deleted records included. Deleting a record frees no quota.
\<close>

theorem createTask_quota_counts_created:
  "((createTask fx s sender now chunks inputProof title priority dueDate category tags color
       = Inl (Revert ''Max tasks reached''))
    = (0 < length chunks \<and> length chunks \<le> MAX_CHUNKS_PER_TASK
         \<and> MAX_TASKS_PER_USER \<le> totalTasks (userStats s sender)))
   \<and> totalTasks (userStats (step fx s (Tx sender now (DeleteTask taskId))) a)
       = totalTasks (userStats s a)
   \<and> totalTasks (userStats (run fx tasks_init txs) a)
       = length (userTasks (run fx tasks_init txs) a)"
proof (intro conjI)
  show "totalTasks (userStats (step fx s (Tx sender now (DeleteTask taskId))) a)
       = totalTasks (userStats s a)"
    by (auto simp: step_def split: sum.splits dest: deleteTask_totalTasks)
  show "totalTasks (userStats (run fx tasks_init txs) a)
       = length (userTasks (run fx tasks_init txs) a)"
    by (rule run_totalTasks_length) (simp add: tasks_init_def zeroStats_def)
qed (rule createTask_quota_iff)

theorem createTask_quota_counts_created_witness:
  "createTask acceptAll (run acceptAll tasks_init [newMilk, drop0]) alice 103
       [7] [] ''Walk'' Low 0 [] [] [] \<noteq> Inl (Revert ''Max tasks reached'')
   \<and> totalTasks (userStats (step acceptAll (run acceptAll tasks_init [newMilk])
         (Tx alice 102 (DeleteTask 0))) alice) = 1
   \<and> length (userTasks (run acceptAll tasks_init [newMilk, drop0]) alice) = 1"
proof -
  let ?s = "run acceptAll tasks_init [newMilk, drop0]"
  let ?s1 = "run acceptAll tasks_init [newMilk]"
  note q = createTask_quota_counts_created
    [of acceptAll ?s alice 103 "[7]" "[]" "''Walk''" Low 0 "[]" "[]" "[]" ]
  have t: "totalTasks (userStats ?s alice) = 1"
    by (simp add: tasks_defs sample_defs)
  have t1: "totalTasks (userStats ?s1 alice) = 1"
    by (simp add: tasks_defs sample_defs)
  have a: "createTask acceptAll ?s alice 103 [7] [] ''Walk'' Low 0 [] [] []
      \<noteq> Inl (Revert ''Max tasks reached'')"
    unfolding q [THEN conjunct1] t by (simp add: MAX_TASKS_PER_USER_def)
  have b: "totalTasks (userStats (step acceptAll ?s1 (Tx alice 102 (DeleteTask 0))) alice) = 1"
    using createTask_quota_counts_created
      [where fx = acceptAll and s = "?s1" and sender = alice and now = 102 and taskId = 0
        and a = alice, THEN conjunct2, THEN conjunct1]
    unfolding t1 .
  have c: "length (userTasks ?s alice) = 1"
    using createTask_quota_counts_created
      [where fx = acceptAll and txs = "[newMilk, drop0]" and a = alice,
        THEN conjunct2, THEN conjunct2]
    unfolding t by simp
  from a b c show ?thesis by blast
qed

lemma fill:
  "n \<le> 1000 \<Longrightarrow> run acceptAll tasks_init (replicate n newMilk) = filled n"
proof (induction n)
  case 0
  show ?case
    by (simp add: filled_def tasks_init_def zeroStats_def fun_eq_iff)
next
  case (Suc n)
  from Suc.prems have n: "n < 1000"
    by simp
  then have IH: "run acceptAll tasks_init (replicate n newMilk) = filled n"
    using Suc.IH by simp
  have "replicate (Suc n) newMilk = replicate n newMilk @ [newMilk]"
    by (simp add: replicate_append_same)
  then have "run acceptAll tasks_init (replicate (Suc n) newMilk)
      = step acceptAll (run acceptAll tasks_init (replicate n newMilk)) newMilk"
    by (simp only: run_snoc)
  also have "\<dots> = filled (Suc n)"
    unfolding IH using n
    by (simp add: filled_def step_def newMilk_def acceptAll_def createTask_def Let_def checked_add_def
        MAX_UINT256_def MAX_CHUNKS_PER_TASK_def MAX_TASKS_PER_USER_def tasks_init_def
        zeroStats_def fun_eq_iff)
  finally show ?case .
qed

lemma full_then_delete:
  "userStats (run acceptAll tasks_init (replicate 1000 newMilk @ [drop0])) alice
     = zeroStats\<lparr>totalTasks := 1000, todoTasks := 999, totalStorage := 2997\<rparr>
   \<and> \<not> live (userTasks (run acceptAll tasks_init (replicate 1000 newMilk @ [drop0])) alice ! 0)"
  unfolding run_snoc fill [of 1000, simplified]
  by (simp add: filled_def step_def drop0_def deleteTask_def Let_def checked_sub_def decStatusCounter_def
      tasks_init_def zeroStats_def live_def del: upt_rec_numeral)

text \<open>
  After a thousand creations Alice deletes her first task; a further \<^verbatim>\<open>createTask\<close> is
  still refused.
\<close>

theorem delete_frees_no_quota:
  "\<not> live (userTasks (run acceptAll tasks_init (replicate 1000 newMilk @ [drop0])) alice ! 0)
   \<and> createTask acceptAll (run acceptAll tasks_init (replicate 1000 newMilk @ [drop0])) alice 103
       [7] [] ''Walk'' Low 0 [] [] [] = Inl (Revert ''Max tasks reached'')"
  using full_then_delete
  by (simp add: createTask_quota_iff MAX_CHUNKS_PER_TASK_def MAX_TASKS_PER_USER_def zeroStats_def)


subsection \<open>Secondary indices\<close>




subsection \<open>Sharing\<close>

declare getSharedTasks_loop.simps [simp del]

lemma getSharedTasks_loop_length:
  "getSharedTasks_loop s refs i metadata = Inr ms \<Longrightarrow> length ms = length metadata"
proof (induction s refs i metadata rule: getSharedTasks_loop.induct)
  case (1 s refs i metadata)
  from "1.prems" show ?case
    by (subst (asm) getSharedTasks_loop.simps)
       (auto simp: Let_def split: if_splits dest: "1.IH")
qed

lemma getSharedTasks_length:
  "getSharedTasks s a = Inr ms \<Longrightarrow> length ms = length (sharedWithMe s a)"
  by (auto simp: getSharedTasks_def Let_def dest: getSharedTasks_loop_length)

lemma getSharedTasks_loop_slots:
  assumes "\<forall>r \<in> set refs. ref_taskId r < length (userTasks s (ref_owner r))"
    and "length metadata = length refs"
    and "\<forall>j. i \<le> j \<and> j < length refs \<longrightarrow> metadata ! j = zeroMetadata"
  shows "getSharedTasks_loop s refs i metadata
           = Inr (take i metadata @ map (sharedSlot s) (drop i refs))"
  using assms
proof (induction s refs i metadata rule: getSharedTasks_loop.induct)
  case (1 s refs i metadata)
  show ?case
  proof (cases "i < length refs")
    case False
    with "1.prems" show ?thesis
      by (subst getSharedTasks_loop.simps) simp
  next
    case True
    let ?r = "refs ! i"
    let ?task = "userTasks s (ref_owner ?r) ! ref_taskId ?r"
    from True "1.prems"(1) have ok: "ref_taskId ?r < length (userTasks s (ref_owner ?r))"
      by simp
    have d: "drop i refs = ?r # drop (Suc i) refs"
      using True by (simp add: Cons_nth_drop_Suc)
    show ?thesis
    proof (cases "task_owner ?task \<noteq> 0")
      case live: True
      have "getSharedTasks_loop s refs i metadata
          = getSharedTasks_loop s refs (Suc i) (metadata[i := sharedMetadata ?r ?task])"
        using True ok live by (subst getSharedTasks_loop.simps) (simp add: Let_def)
      also have "\<dots> = Inr (take (Suc i) (metadata[i := sharedMetadata ?r ?task])
          @ map (sharedSlot s) (drop (Suc i) refs))"
        using True ok live "1.prems"
        by (intro "1.IH"(1)) (auto simp: Let_def)
      also have "take (Suc i) (metadata[i := sharedMetadata ?r ?task])
          = take i metadata @ [sharedSlot s ?r]"
        using True live "1.prems"(2)
        by (simp add: take_Suc_conv_app_nth sharedSlot_def Let_def)
      finally show ?thesis
        by (simp add: d)
    next
      case dead: False
      have "getSharedTasks_loop s refs i metadata = getSharedTasks_loop s refs (Suc i) metadata"
        using True ok dead by (subst getSharedTasks_loop.simps) (simp add: Let_def)
      also have "\<dots> = Inr (take (Suc i) metadata @ map (sharedSlot s) (drop (Suc i) refs))"
        using True ok dead "1.prems"
        by (intro "1.IH"(2)) (auto simp: Let_def)
      also have "take (Suc i) metadata = take i metadata @ [sharedSlot s ?r]"
        using True dead "1.prems"(2,3)
        by (simp add: take_Suc_conv_app_nth sharedSlot_def Let_def)
      finally show ?thesis
        by (simp add: d)
    qed
  qed
qed

lemma getSharedTasks_valid:
  assumes "\<forall>r \<in> set (sharedWithMe s a). ref_taskId r < length (userTasks s (ref_owner r))"
  shows "getSharedTasks s a = Inr (map (sharedSlot s) (sharedWithMe s a))"
  using getSharedTasks_loop_slots [OF assms, of "replicate (length (sharedWithMe s a)) zeroMetadata" 0]
  by (simp add: getSharedTasks_def Let_def)

text \<open>The references stay valid because no sequence ever shrinks.\<close>

lemma exec_refs:
  assumes "exec fx s t = Inr s'" and "r \<in> set (sharedWithMe s' a)"
  shows "r \<in> set (sharedWithMe s a) \<or> ref_taskId r < length (userTasks s (ref_owner r))"
proof (cases t)
  case (Tx sender now c)
  with assms show ?thesis
    by (cases c)
       (auto simp: createTask_def updateTask_def deleteTask_def updateTaskStatus_def
          updateTaskPriority_def setArchived_def setFavorite_def shareTask_def Let_def
          split: sum.splits if_splits)
qed

lemma exec_refsValid:
  assumes "exec fx s t = Inr s'" and "refsValid s"
  shows "refsValid s'"
  unfolding refsValid_def
proof (intro allI ballI)
  fix a r
  assume "r \<in> set (sharedWithMe s' a)"
  with exec_refs [OF assms(1)]
  have "r \<in> set (sharedWithMe s a) \<or> ref_taskId r < length (userTasks s (ref_owner r))"
    by blast
  with assms(2) have "ref_taskId r < length (userTasks s (ref_owner r))"
    by (auto simp: refsValid_def)
  also have "\<dots> \<le> length (userTasks s' (ref_owner r))"
    by (rule exec_length_userTasks [OF assms(1)])
  finally show "ref_taskId r < length (userTasks s' (ref_owner r))" .
qed

lemma run_refsValid: "refsValid s \<Longrightarrow> refsValid (run fx s txs)"
  by (induction txs arbitrary: s)
     (auto simp: step_def split: sum.splits dest: exec_refsValid)

lemma refsValid_init: "refsValid tasks_init"
  by (simp add: refsValid_def tasks_init_def)


text \<open>
  C8 (as the code has it). In every state the contract can reach, \<^verbatim>\<open>getSharedTasks\<close>
  returns one slot per grant, in the order of the grants. The slot of a grant whose record
  is live holds that record's metadata; the slot of a grant whose record was deleted is not
  removed from the result: it holds the zero-initialised struct (owner address 0, id 0,
  empty title), so none of the deleted record's data is returned.
\<close>

theorem getSharedTasks_one_slot_per_grant:
  "getSharedTasks (run fx tasks_init txs) a
     = Inr (map (sharedSlot (run fx tasks_init txs)) (sharedWithMe (run fx tasks_init txs) a))"
proof -
  have "refsValid (run fx tasks_init txs)"
    by (rule run_refsValid [OF refsValid_init])
  then show ?thesis
    by (intro getSharedTasks_valid) (simp add: refsValid_def)
qed

theorem getSharedTasks_one_slot_per_grant_witness:
  "getSharedTasks (run acceptAll tasks_init [newMilk, newRent, share0, share1, drop0]) bob
     = Inr [zeroMetadata,
            \<lparr>md_id = 1, md_title = ''Pay rent'', md_status = Todo, md_priority = High,
             md_dueDate = 0, md_category = [], md_tags = [], md_createdAt = 101,
             md_updatedAt = 101, md_completedAt = 0, md_chunkCount = 3,
             md_isArchived = False, md_isFavorite = False, md_color = [],
             md_owner = alice\<rparr>]"
  unfolding getSharedTasks_one_slot_per_grant
  by (simp add: tasks_defs sample_defs sharedSlot_def sharedMetadata_def)

text \<open>
  Alice shares her only task with Bob and deletes it: Bob's query returns one entry, the
  zero-initialised one.
\<close>

theorem deleted_grant_keeps_its_slot:
  "sharedWithMe (run acceptAll tasks_init [newMilk, share0, drop0]) bob
     = [\<lparr>ref_owner = alice, ref_taskId = 0\<rparr>]
   \<and> \<not> live (userTasks (run acceptAll tasks_init [newMilk, share0, drop0]) alice ! 0)
   \<and> getSharedTasks (run acceptAll tasks_init [newMilk, share0, drop0]) bob = Inr [zeroMetadata]
   \<and> getSharedTasks (run acceptAll tasks_init [newMilk, share0, drop0]) bob \<noteq> Inr []"
  by (simp add: tasks_defs sample_defs getSharedTasks_def getSharedTasks_loop.simps live_def)

text \<open>
  C7 (as the code has it). A successful \<^verbatim>\<open>shareTask\<close> appends one reference to the
  recipient's list and changes nothing else in the storage. It is not idempotent: the same
  grant made again succeeds again and appends the same reference a second time, and the
  recipient's \<^verbatim>\<open>getSharedTasks\<close> result is one entry longer for each grant.
\<close>

theorem shareTask_appends_each_time:
  assumes "shareTask s sender taskId recipient = Inr s'"
  shows "s' = s\<lparr>sharedWithMe := (sharedWithMe s)(recipient :=
            sharedWithMe s recipient @ [\<lparr>ref_owner = sender, ref_taskId = taskId\<rparr>])\<rparr>
    \<and> (\<exists>s''. shareTask s' sender taskId recipient = Inr s''
          \<and> sharedWithMe s'' recipient =
              sharedWithMe s recipient
                @ [\<lparr>ref_owner = sender, ref_taskId = taskId\<rparr>,
                   \<lparr>ref_owner = sender, ref_taskId = taskId\<rparr>]
          \<and> userTasks s'' = userTasks s \<and> userStats s'' = userStats s
          \<and> tasksByCategory s'' = tasksByCategory s \<and> tasksByTag s'' = tasksByTag s
          \<and> (\<forall>ms. getSharedTasks s'' recipient = Inr ms \<longrightarrow>
                length ms = length (sharedWithMe s recipient) + 2))"
proof -
  from assms have s': "s' = s\<lparr>sharedWithMe := (sharedWithMe s)(recipient :=
            sharedWithMe s recipient @ [\<lparr>ref_owner = sender, ref_taskId = taskId\<rparr>])\<rparr>"
    by (auto simp: shareTask_def Let_def split: if_splits)
  from assms have again: "shareTask s' sender taskId recipient =
      Inr (s'\<lparr>sharedWithMe := (sharedWithMe s')(recipient :=
            sharedWithMe s' recipient @ [\<lparr>ref_owner = sender, ref_taskId = taskId\<rparr>])\<rparr>)"
    unfolding s' by (auto simp: shareTask_def Let_def split: if_splits)
  let ?s'' = "s'\<lparr>sharedWithMe := (sharedWithMe s')(recipient :=
            sharedWithMe s' recipient @ [\<lparr>ref_owner = sender, ref_taskId = taskId\<rparr>])\<rparr>"
  have l: "sharedWithMe ?s'' recipient =
      sharedWithMe s recipient
        @ [\<lparr>ref_owner = sender, ref_taskId = taskId\<rparr>, \<lparr>ref_owner = sender, ref_taskId = taskId\<rparr>]"
    unfolding s' by simp
  have "\<forall>ms. getSharedTasks ?s'' recipient = Inr ms \<longrightarrow>
      length ms = length (sharedWithMe s recipient) + 2"
    using l by (auto dest!: getSharedTasks_length)
  moreover have "userTasks ?s'' = userTasks s \<and> userStats ?s'' = userStats s
      \<and> tasksByCategory ?s'' = tasksByCategory s \<and> tasksByTag ?s'' = tasksByTag s"
    unfolding s' by simp
  ultimately show ?thesis
    using s' again l by blast
qed

theorem shareTask_appends_each_time_witness:
  "shareTask (run acceptAll tasks_init [newMilk]) alice 0 bob
     = Inr (run acceptAll tasks_init [newMilk, share0])
   \<and> (\<exists>s''. shareTask (run acceptAll tasks_init [newMilk, share0]) alice 0 bob = Inr s''
         \<and> sharedWithMe s'' bob =
             [\<lparr>ref_owner = alice, ref_taskId = 0\<rparr>, \<lparr>ref_owner = alice, ref_taskId = 0\<rparr>])"
proof -
  let ?s = "run acceptAll tasks_init [newMilk]"
  let ?s' = "run acceptAll tasks_init [newMilk, share0]"
  have h: "shareTask ?s alice 0 bob = Inr ?s'"
    by (simp add: tasks_defs sample_defs)
  have e: "sharedWithMe ?s bob = []"
    by (simp add: tasks_defs sample_defs)
  from shareTask_appends_each_time [OF h] obtain s'' where
    "shareTask ?s' alice 0 bob = Inr s''"
    "sharedWithMe s'' bob = sharedWithMe ?s bob
        @ [\<lparr>ref_owner = alice, ref_taskId = 0\<rparr>, \<lparr>ref_owner = alice, ref_taskId = 0\<rparr>]"
    by blast
  then show ?thesis
    unfolding e using h by auto
qed

text \<open>
  Alice shares her task with Bob once, and in a second run twice: Bob's list and his
  query result have one entry after the first run and two after the second.
\<close>

theorem second_grant_adds_entry:
  "sharedWithMe (run acceptAll tasks_init [newMilk, share0]) bob
     = [\<lparr>ref_owner = alice, ref_taskId = 0\<rparr>]
   \<and> sharedWithMe (run acceptAll tasks_init [newMilk, share0, share0]) bob
     = [\<lparr>ref_owner = alice, ref_taskId = 0\<rparr>, \<lparr>ref_owner = alice, ref_taskId = 0\<rparr>]
   \<and> getSharedTasks (run acceptAll tasks_init [newMilk, share0, share0]) bob
     \<noteq> getSharedTasks (run acceptAll tasks_init [newMilk, share0]) bob"
  by (simp add: tasks_defs sample_defs getSharedTasks_def getSharedTasks_loop.simps)

subsection \<open>Status counters\<close>

lemma filter_update_count:
  "i < length xs \<Longrightarrow>
   length (filter P (xs[i := y])) + (if P (xs ! i) then 1 else 0)
     = length (filter P xs) + (if P y then 1 else 0)"
proof (induction xs arbitrary: i)
  case Nil
  then show ?case by simp
next
  case (Cons x xs)
  then show ?case
    by (cases i) auto
qed

lemma liveWith_snoc:
  "liveWith x (ts @ [t]) = liveWith x ts + (if live t \<and> task_status t = x then 1 else 0)"
  by (simp add: liveWith_def)

lemma liveWith_update:
  "i < length ts \<Longrightarrow>
   liveWith x (ts[i := t]) + (if live (ts ! i) \<and> task_status (ts ! i) = x then 1 else 0)
     = liveWith x ts + (if live t \<and> task_status t = x then 1 else 0)"
  unfolding liveWith_def by (rule filter_update_count)

lemma liveWith_update_same:
  assumes "i < length ts" "task_owner t = task_owner (ts ! i)" "task_status t = task_status (ts ! i)"
  shows "liveWith x (ts[i := t]) = liveWith x ts"
  using liveWith_update [OF assms(1), of x t] assms(2,3) by (simp add: live_def)

lemma liveWith_update_dead:
  assumes "i < length ts" "live (ts ! i)" "\<not> live t"
  shows "liveWith x (ts[i := t]) = liveWith x ts - (if task_status (ts ! i) = x then 1 else 0)"
  using liveWith_update [OF assms(1), of x t] assms(2,3) by (simp split: if_splits)

lemma liveWith_pos:
  assumes "i < length ts" "live (ts ! i)"
  shows "1 \<le> liveWith (task_status (ts ! i)) ts"
  using liveWith_update [OF assms(1), of "task_status (ts ! i)" "(ts ! i)\<lparr>task_owner := 0\<rparr>"] assms(2)
  by (simp add: live_def)

lemma liveWith_update_status:
  assumes "i < length ts" "live (ts ! i)" "live t" "task_status t = y"
  shows "liveWith x (ts[i := t]) =
     liveWith x ts - (if task_status (ts ! i) = x then 1 else 0) + (if y = x then 1 else 0)"
  using liveWith_update [OF assms(1), of x t] liveWith_pos [OF assms(1,2)] assms(2,3,4)
  by (simp split: if_splits)

lemma liveWith_sum:
  "liveWith Todo ts + liveWith InProgress ts + liveWith Completed ts + deletedCount ts = length ts"
proof (induction ts)
  case Nil
  show ?case by (simp add: liveWith_def deletedCount_def)
next
  case (Cons t ts)
  then show ?case
    by (cases "task_status t") (auto simp: liveWith_def deletedCount_def)
qed


lemma exec_counters_live:
  assumes ex: "exec fx s t = Inr s'"
    and ad: "addressed s t"
    and inv: "\<forall>x. statusCounter (userStats s a) x = liveWith x (userTasks s a)"
  shows "statusCounter (userStats s' a) x = liveWith x (userTasks s' a)"
proof (cases t)
  case (Tx sender now c)
  from ad Tx have sender: "sender \<noteq> 0"
    by (cases c) auto
  show ?thesis
  proof (cases c)
    case (CreateTask chunks inputProof title priority dueDate category tags color)
    have "todoTasks (userStats s a) = liveWith Todo (userTasks s a)"
      "inProgressTasks (userStats s a) = liveWith InProgress (userTasks s a)"
      "completedTasks (userStats s a) = liveWith Completed (userTasks s a)"
      using inv [rule_format, of Todo] inv [rule_format, of InProgress]
        inv [rule_format, of Completed]
      by (simp_all add: statusCounter_def)
    with CreateTask ex Tx sender show ?thesis
      by (cases x)
         (auto simp: createTask_def Let_def checked_add_def statusCounter_def liveWith_snoc
            live_def split: sum.splits if_splits)
  next
    case (UpdateTask taskId chunks inputProof title priority dueDate category tags color)
    with ex Tx inv show ?thesis
      by (auto simp: updateTask_def Let_def liveWith_update_same
            split: sum.splits if_splits)
  next
    case (DeleteTask taskId)
    show ?thesis
    proof (cases "a = sender")
      case False
      with ex Tx DeleteTask inv show ?thesis
        by (auto simp: deleteTask_def Let_def split: sum.splits if_splits)
    next
      case True
      from ex Tx DeleteTask have r: "taskId < length (userTasks s sender)"
        by (auto simp: deleteTask_def split: if_splits)
      with ad Tx DeleteTask have lv: "live (userTasks s sender ! taskId)"
        by simp
      from ex Tx DeleteTask r obtain stor st1 where
        st1: "decStatusCounter ((userStats s sender)\<lparr>totalStorage := stor\<rparr>)
                (task_status (userTasks s sender ! taskId)) = Inr st1"
        and sc: "statusCounter (userStats s' sender) x = statusCounter st1 x"
        and ut: "userTasks s' sender = (userTasks s sender)[taskId :=
            (userTasks s sender ! taskId)\<lparr>task_encryptedDescription := [], task_owner := 0\<rparr>]"
        by (auto simp: deleteTask_def Let_def split: sum.splits if_splits)
      have "statusCounter st1 x = statusCounter (userStats s sender) x
          - (if x = task_status (userTasks s sender ! taskId) then 1 else 0)"
        using decStatusCounter_fields(1) [OF st1] by simp
      also have "\<dots> = liveWith x (userTasks s' sender)"
        unfolding ut using inv True r lv
        by (subst liveWith_update_dead) (auto simp: live_def)
      finally show ?thesis
        using sc True by simp
    qed
  next
    case (UpdateTaskStatus taskId newStatus)
    show ?thesis
    proof (cases "a = sender \<and> taskId < length (userTasks s sender)
        \<and> task_status (userTasks s sender ! taskId) \<noteq> newStatus")
      case False
      with ex Tx UpdateTaskStatus inv show ?thesis
        by (auto simp: updateTaskStatus_def Let_def split: sum.splits if_splits)
    next
      case True
      then have r: "taskId < length (userTasks s sender)" and a: "a = sender"
        and ne: "task_status (userTasks s sender ! taskId) \<noteq> newStatus"
        by auto
      from ex Tx UpdateTaskStatus r have lv: "live (userTasks s sender ! taskId)"
        by (auto simp: updateTaskStatus_def Let_def live_def split: if_splits)
      from ex Tx UpdateTaskStatus r ne obtain st1 st2 where
        st1: "decStatusCounter (userStats s sender)
                (task_status (userTasks s sender ! taskId)) = Inr st1"
        and st2: "incStatusCounter st1 newStatus = Inr st2"
        and sc: "userStats s' sender = st2"
        and ut: "userTasks s' sender = (userTasks s sender)[taskId :=
            (userTasks s sender ! taskId)\<lparr>task_completedAt := (if newStatus = Completed then now else 0),
               task_status := newStatus, task_updatedAt := now\<rparr>]"
        by (auto simp: updateTaskStatus_def Let_def split: sum.splits if_splits)
      have "statusCounter st2 x = statusCounter (userStats s sender) x
          - (if x = task_status (userTasks s sender ! taskId) then 1 else 0)
          + (if x = newStatus then 1 else 0)"
        using decStatusCounter_fields(1) [OF st1] incStatusCounter_fields(1) [OF st2] by simp
      also have "\<dots> = liveWith x (userTasks s' sender)"
        unfolding ut using inv a r lv
        by (subst liveWith_update_status [where y = newStatus]) (auto simp: live_def)
      finally show ?thesis
        using sc a by simp
    qed
  next
    case (UpdateTaskPriority taskId newPriority)
    with ex Tx inv show ?thesis
      by (auto simp: updateTaskPriority_def Let_def liveWith_update_same
            split: sum.splits if_splits)
  next
    case (SetArchived taskId archived)
    with ex Tx inv show ?thesis
      by (auto simp: setArchived_def Let_def liveWith_update_same
            split: sum.splits if_splits)
  next
    case (SetFavorite taskId favorite)
    with ex Tx inv show ?thesis
      by (auto simp: setFavorite_def Let_def liveWith_update_same
            split: sum.splits if_splits)
  next
    case (ShareTask taskId recipient)
    with ex Tx inv show ?thesis
      by (auto simp: shareTask_def Let_def split: sum.splits if_splits)
  qed
qed

lemma run_counters_live:
  assumes "allAddressed fx s txs"
    and "\<forall>a x. statusCounter (userStats s a) x = liveWith x (userTasks s a)"
  shows "statusCounter (userStats (run fx s txs) a) x = liveWith x (userTasks (run fx s txs) a)"
  using assms
proof (induction txs arbitrary: s)
  case Nil
  then show ?case by simp
next
  case (Cons t txs)
  have "\<forall>a x. statusCounter (userStats (step fx s t) a) x = liveWith x (userTasks (step fx s t) a)"
  proof (cases "exec fx s t")
    case (Inl e)
    with Cons.prems(2) show ?thesis
      by (simp add: step_def)
  next
    case (Inr s')
    with Cons.prems show ?thesis
      by (auto simp: step_def intro: exec_counters_live)
  qed
  with Cons.IH [of "step fx s t"] Cons.prems(1) show ?case
    by simp
qed

text \<open>
  C1 (as the code has it). After any sequence of transactions sent from non-zero addresses
  in which \<^verbatim>\<open>deleteTask\<close> and \<^verbatim>\<open>updateTask\<close> are never applied to a record that is already
  deleted, each status
  counter of an owner equals the number of the owner's live records of that status, and
  \<open>totalTasks\<close> equals the number of records the owner ever created (the length of the
  sequence, deleted records included). So the three status counters sum to \<open>totalTasks\<close>
  minus the number of deleted records, not to \<open>totalTasks\<close>.
\<close>

theorem status_counters_count_live:
  assumes "allAddressed fx tasks_init txs"
  shows "todoTasks (userStats (run fx tasks_init txs) a)
           = liveWith Todo (userTasks (run fx tasks_init txs) a)
    \<and> inProgressTasks (userStats (run fx tasks_init txs) a)
           = liveWith InProgress (userTasks (run fx tasks_init txs) a)
    \<and> completedTasks (userStats (run fx tasks_init txs) a)
           = liveWith Completed (userTasks (run fx tasks_init txs) a)
    \<and> totalTasks (userStats (run fx tasks_init txs) a)
           = length (userTasks (run fx tasks_init txs) a)
    \<and> todoTasks (userStats (run fx tasks_init txs) a)
        + inProgressTasks (userStats (run fx tasks_init txs) a)
        + completedTasks (userStats (run fx tasks_init txs) a)
        + deletedCount (userTasks (run fx tasks_init txs) a)
           = totalTasks (userStats (run fx tasks_init txs) a)"
proof -
  let ?s = "run fx tasks_init txs"
  have i: "\<forall>a x. statusCounter (userStats tasks_init a) x = liveWith x (userTasks tasks_init a)"
    by (simp add: tasks_init_def zeroStats_def statusCounter_def liveWith_def
        split: TaskStatus.splits)
  have c: "statusCounter (userStats ?s a) x = liveWith x (userTasks ?s a)" for x
    by (rule run_counters_live [OF assms i])
  have t: "totalTasks (userStats ?s a) = length (userTasks ?s a)"
    by (rule run_totalTasks_length) (simp add: tasks_init_def zeroStats_def)
  from c [of Todo] c [of InProgress] c [of Completed] t liveWith_sum [of "userTasks ?s a"]
  show ?thesis
    by (simp add: statusCounter_def)
qed

theorem status_counters_count_live_witness:
  "allAddressed acceptAll tasks_init
      [newMilk, newRent, Tx alice 103 (UpdateTaskStatus 1 Completed), rewrite, drop0]
   \<and> todoTasks (userStats (run acceptAll tasks_init
        [newMilk, newRent, Tx alice 103 (UpdateTaskStatus 1 Completed), rewrite, drop0]) alice) = 0
   \<and> completedTasks (userStats (run acceptAll tasks_init
        [newMilk, newRent, Tx alice 103 (UpdateTaskStatus 1 Completed), rewrite, drop0]) alice) = 1
   \<and> totalTasks (userStats (run acceptAll tasks_init
        [newMilk, newRent, Tx alice 103 (UpdateTaskStatus 1 Completed), rewrite, drop0]) alice) = 2
   \<and> deletedCount (userTasks (run acceptAll tasks_init
        [newMilk, newRent, Tx alice 103 (UpdateTaskStatus 1 Completed), rewrite, drop0]) alice) = 1"
proof -
  let ?txs = "[newMilk, newRent, Tx alice 103 (UpdateTaskStatus 1 Completed), rewrite, drop0]"
  let ?s = "run acceptAll tasks_init ?txs"
  have h: "allAddressed acceptAll tasks_init ?txs"
    by (simp add: tasks_defs sample_defs live_def)
  have l: "liveWith Todo (userTasks ?s alice) = 0" "liveWith Completed (userTasks ?s alice) = 1"
    "length (userTasks ?s alice) = 2" "liveWith InProgress (userTasks ?s alice) = 0"
    by (simp_all add: tasks_defs sample_defs live_def liveWith_def)
  from status_counters_count_live [OF h, of alice] h show ?thesis
    unfolding l by simp
qed

text \<open>After one creation and one deletion the status counters sum to 0, \<open>totalTasks\<close> is 1.\<close>

theorem counters_after_delete:
  "userStats (run acceptAll tasks_init [newMilk, drop0]) alice =
     zeroStats\<lparr>totalTasks := 1\<rparr> \<and>
   todoTasks (userStats (run acceptAll tasks_init [newMilk, drop0]) alice)
     + inProgressTasks (userStats (run acceptAll tasks_init [newMilk, drop0]) alice)
     + completedTasks (userStats (run acceptAll tasks_init [newMilk, drop0]) alice)
   \<noteq> totalTasks (userStats (run acceptAll tasks_init [newMilk, drop0]) alice)"
  by (simp add: tasks_defs sample_defs)


subsection \<open>Box statistics\<close>

declare getBoxStats_loop.simps [simp del]

lemma rating_le_255: "unat (r :: uint8) \<le> 255"
  using unsigned_less [of r, where 'a = nat] by simp

lemma scanEntry_tally:
  assumes "acc_activeCount a < MAX_UINT256" "acc_ratedCount a < MAX_UINT256"
    "acc_positive a < MAX_UINT256" "acc_neutral a < MAX_UINT256"
    "acc_negative a < MAX_UINT256" "acc_unread a < MAX_UINT256"
    "acc_totalRating a + 255 \<le> MAX_UINT256"
  shows "scanEntry f a =
    Inr \<lparr>acc_totalRating = acc_totalRating a + (if fb_rating f > 0 then unat (fb_rating f) else 0),
         acc_ratedCount = acc_ratedCount a + (if fb_rating f > 0 then 1 else 0),
         acc_positive = acc_positive a + (if fb_sentiment f = Positive then 1 else 0),
         acc_neutral = acc_neutral a + (if fb_sentiment f = Neutral then 1 else 0),
         acc_negative = acc_negative a + (if fb_sentiment f = Negative then 1 else 0),
         acc_unread = acc_unread a + (if fb_isRead f then 0 else 1),
         acc_activeCount = acc_activeCount a + 1\<rparr>"
  using assms rating_le_255 [of "fb_rating f"]
  by (cases "fb_sentiment f") (simp_all add: scanEntry_def checked_add_def)

lemma getBoxStats_loop_tally:
  assumes "count * 255 \<le> MAX_UINT256" "i \<le> count"
    "acc_activeCount a \<le> i" "acc_ratedCount a \<le> i" "acc_positive a \<le> i"
    "acc_neutral a \<le> i" "acc_negative a \<le> i" "acc_unread a \<le> i"
    "acc_totalRating a \<le> i * 255"
  shows "getBoxStats_loop fbs count i a =
    Inr \<lparr>acc_totalRating = acc_totalRating a
           + sum_list (map (\<lambda>f. unat (fb_rating f))
               (filter (\<lambda>f. fb_rating f > 0)
                 (filter (\<lambda>f. fb_submittedAt f > 0) (map fbs [i..<count])))),
         acc_ratedCount = acc_ratedCount a
           + length (filter (\<lambda>f. fb_rating f > 0)
               (filter (\<lambda>f. fb_submittedAt f > 0) (map fbs [i..<count]))),
         acc_positive = acc_positive a
           + length (filter (\<lambda>f. fb_sentiment f = Positive)
               (filter (\<lambda>f. fb_submittedAt f > 0) (map fbs [i..<count]))),
         acc_neutral = acc_neutral a
           + length (filter (\<lambda>f. fb_sentiment f = Neutral)
               (filter (\<lambda>f. fb_submittedAt f > 0) (map fbs [i..<count]))),
         acc_negative = acc_negative a
           + length (filter (\<lambda>f. fb_sentiment f = Negative)
               (filter (\<lambda>f. fb_submittedAt f > 0) (map fbs [i..<count]))),
         acc_unread = acc_unread a
           + length (filter (\<lambda>f. \<not> fb_isRead f)
               (filter (\<lambda>f. fb_submittedAt f > 0) (map fbs [i..<count]))),
         acc_activeCount = acc_activeCount a
           + length (filter (\<lambda>f. fb_submittedAt f > 0) (map fbs [i..<count]))\<rparr>"
  using assms
proof (induction "count - i" arbitrary: i a)
  case 0
  then show ?case
    by (subst getBoxStats_loop.simps) simp
next
  case (Suc n)
  then have lt: "i < count" and n: "n = count - Suc i"
    by auto
  have cm: "count \<le> MAX_UINT256"
    using Suc.prems(1) by simp
  have lim: "i * 255 + 255 \<le> MAX_UINT256"
  proof -
    have "Suc i * 255 \<le> count * 255"
      using lt by (intro mult_le_mono1) simp
    with Suc.prems(1) show ?thesis by simp
  qed
  have u: "[i..<count] = i # [Suc i..<count]"
    using lt by (simp add: upt_conv_Cons)
  show ?case
  proof (cases "fb_submittedAt (fbs i) > 0")
    case False
    have "getBoxStats_loop fbs count i a = getBoxStats_loop fbs count (Suc i) a"
      using lt False cm by (subst getBoxStats_loop.simps) simp
    also note Suc.hyps(1) [OF n, of a]
    finally show ?thesis
      using Suc.prems lt False by (simp add: u)
  next
    case True
    let ?a1 = "\<lparr>acc_totalRating = acc_totalRating a + (if fb_rating (fbs i) > 0 then unat (fb_rating (fbs i)) else 0),
         acc_ratedCount = acc_ratedCount a + (if fb_rating (fbs i) > 0 then 1 else 0),
         acc_positive = acc_positive a + (if fb_sentiment (fbs i) = Positive then 1 else 0),
         acc_neutral = acc_neutral a + (if fb_sentiment (fbs i) = Neutral then 1 else 0),
         acc_negative = acc_negative a + (if fb_sentiment (fbs i) = Negative then 1 else 0),
         acc_unread = acc_unread a + (if fb_isRead (fbs i) then 0 else 1),
         acc_activeCount = acc_activeCount a + 1\<rparr>"
    have se: "scanEntry (fbs i) a = Inr ?a1"
      using Suc.prems lt cm lim by (intro scanEntry_tally) simp_all
    have "getBoxStats_loop fbs count i a = getBoxStats_loop fbs count (Suc i) ?a1"
      using lt True cm by (subst getBoxStats_loop.simps) (simp add: se)
    also have "\<dots> = Inr \<lparr>acc_totalRating = acc_totalRating ?a1
           + sum_list (map (\<lambda>f. unat (fb_rating f))
               (filter (\<lambda>f. fb_rating f > 0)
                 (filter (\<lambda>f. fb_submittedAt f > 0) (map fbs [Suc i..<count])))),
         acc_ratedCount = acc_ratedCount ?a1
           + length (filter (\<lambda>f. fb_rating f > 0)
               (filter (\<lambda>f. fb_submittedAt f > 0) (map fbs [Suc i..<count]))),
         acc_positive = acc_positive ?a1
           + length (filter (\<lambda>f. fb_sentiment f = Positive)
               (filter (\<lambda>f. fb_submittedAt f > 0) (map fbs [Suc i..<count]))),
         acc_neutral = acc_neutral ?a1
           + length (filter (\<lambda>f. fb_sentiment f = Neutral)
               (filter (\<lambda>f. fb_submittedAt f > 0) (map fbs [Suc i..<count]))),
         acc_negative = acc_negative ?a1
           + length (filter (\<lambda>f. fb_sentiment f = Negative)
               (filter (\<lambda>f. fb_submittedAt f > 0) (map fbs [Suc i..<count]))),
         acc_unread = acc_unread ?a1
           + length (filter (\<lambda>f. \<not> fb_isRead f)
               (filter (\<lambda>f. fb_submittedAt f > 0) (map fbs [Suc i..<count]))),
         acc_activeCount = acc_activeCount ?a1
           + length (filter (\<lambda>f. fb_submittedAt f > 0) (map fbs [Suc i..<count]))\<rparr>"
      using Suc.prems lt rating_le_255 [of "fb_rating (fbs i)"]
      by (intro Suc.hyps(1) [OF n]) simp_all
    finally show ?thesis
      using True by (simp add: u)
  qed
qed

lemma sum_ratings_le: "sum_list (map (\<lambda>f. unat (fb_rating f)) fs) \<le> length fs * 255"
proof (induction fs)
  case Nil
  show ?case by simp
next
  case (Cons f fs)
  with rating_le_255 [of "fb_rating f"] show ?case by simp
qed

text \<open>
  C9. \<^verbatim>\<open>getBoxStats\<close> returns the statistics of a full scan over the entries of the box
  that are not deleted: their number, the number of unread ones, the number of each
  sentiment, and \<open>floor (sum of the ratings above 0 * 100 / number of rated entries)\<close>, or
  0 when no entry is rated. (The bound on the number of entries keeps the \<^verbatim>\<open>uint256\<close>
  arithmetic from overflowing; it holds for every box that can exist.)
\<close>

theorem getBoxStats_full_scan:
  assumes "feedbackCountPerBox s globalBoxId * 25500 \<le> MAX_UINT256"
  shows "getBoxStats s globalBoxId = Inr (specBoxStats (liveFeedback s globalBoxId))"
proof -
  let ?count = "feedbackCountPerBox s globalBoxId"
  let ?live = "liveFeedback s globalBoxId"
  let ?rated = "filter (\<lambda>f. fb_rating f > 0) ?live"
  have c: "?count * 255 \<le> MAX_UINT256"
    using assms by simp
  have loop: "getBoxStats_loop (boxFeedback s globalBoxId) ?count 0 zeroScan =
    Inr \<lparr>acc_totalRating = sum_list (map (\<lambda>f. unat (fb_rating f)) ?rated),
         acc_ratedCount = length ?rated,
         acc_positive = length (filter (\<lambda>f. fb_sentiment f = Positive) ?live),
         acc_neutral = length (filter (\<lambda>f. fb_sentiment f = Neutral) ?live),
         acc_negative = length (filter (\<lambda>f. fb_sentiment f = Negative) ?live),
         acc_unread = length (filter (\<lambda>f. \<not> fb_isRead f) ?live),
         acc_activeCount = length ?live\<rparr>"
    using getBoxStats_loop_tally [OF c, of 0 zeroScan "boxFeedback s globalBoxId"]
    by (simp add: zeroScan_def liveFeedback_def)
  have "sum_list (map (\<lambda>f. unat (fb_rating f)) ?rated) \<le> length ?rated * 255"
    by (rule sum_ratings_le)
  also have "\<dots> \<le> ?count * 255"
  proof -
    have "length ?rated \<le> length ?live"
      by (rule length_filter_le)
    also have "\<dots> \<le> ?count"
      unfolding liveFeedback_def using length_filter_le [of _ "map (boxFeedback s globalBoxId) [0..<?count]"]
      by simp
    finally show ?thesis by simp
  qed
  finally have "sum_list (map (\<lambda>f. unat (fb_rating f)) ?rated) * 100 \<le> ?count * 25500"
    by simp
  with assms have m: "sum_list (map (\<lambda>f. unat (fb_rating f)) ?rated) * 100 \<le> MAX_UINT256"
    by simp
  show ?thesis
    using m by (simp add: getBoxStats_def Let_def loop checked_mul_def specBoxStats_def
        specAvgRating_def)
qed


lemmas feedback_defs = fstep_def createBox_def closeBox_def reopenBox_def updateBox_def
  submitFeedback_def markAsRead_def deleteFeedback_def boxIsActive_def findBox_def
  findBox_loop.simps feedback_init_def zeroFeedback_def checked_add_def MAX_UINT256_def
  MAX_CHUNKS_PER_FEEDBACK_def MAX_BOXES_PER_OWNER_def acceptAll_def alice_def bob_def
  carol_def Let_def

text \<open>Scenario B of the specification.\<close>

theorem getBoxStats_full_scan_witness:
  "getBoxStats (frun acceptAll feedback_init scenarioB) 0 =
     Inr \<lparr>totalSubmissions = 2, unreadCount = 2, avgRating = 400, positiveCount = 1,
          neutralCount = 0, negativeCount = 1\<rparr>"
proof -
  let ?s = "frun acceptAll feedback_init scenarioB"
  have n: "feedbackCountPerBox ?s 0 = 2"
    by (simp add: scenarioB_def feedback_defs)
  have h: "feedbackCountPerBox ?s 0 * 25500 \<le> MAX_UINT256"
    unfolding n by (simp add: MAX_UINT256_def)
  have u: "[0..<2] = [0, Suc 0]"
    by (simp add: upt_rec)
  have "specBoxStats (liveFeedback ?s 0) =
     \<lparr>totalSubmissions = 2, unreadCount = 2, avgRating = 400, positiveCount = 1,
      neutralCount = 0, negativeCount = 1\<rparr>"
    unfolding liveFeedback_def n u
    by (simp add: scenarioB_def feedback_defs specBoxStats_def specAvgRating_def)
  with getBoxStats_full_scan [OF h] show ?thesis
    by simp
qed


subsection \<open>Ratings\<close>

lemma submitFeedback_InrE:
  assumes ok: "submitFeedback fx s now globalBoxId chunks inputProof rating sentiment = Inr (s', feedbackId)"
  obtains k n hs m where
    "findBox s (boxOwners s globalBoxId) globalBoxId = Inr k"
    "box_allowRatings (ownerBoxes s (boxOwners s globalBoxId) ! k) \<longrightarrow> rating \<le> 5"
    "feedbackId = feedbackCountPerBox s globalBoxId"
    "s' = s\<lparr>feedbackCountPerBox := (feedbackCountPerBox s)(globalBoxId := n),
            boxFeedback := (boxFeedback s)(globalBoxId :=
              (boxFeedback s globalBoxId)(feedbackCountPerBox s globalBoxId :=
                (boxFeedback s globalBoxId (feedbackCountPerBox s globalBoxId))
                  \<lparr>fb_id := feedbackCountPerBox s globalBoxId, fb_boxId := globalBoxId,
                   fb_rating := (if box_allowRatings (ownerBoxes s (boxOwners s globalBoxId) ! k)
                                 then rating else 0),
                   fb_sentiment := sentiment, fb_submittedAt := now, fb_isRead := False,
                   fb_chunkCount := of_nat (length chunks),
                   fb_encryptedContent :=
                     fb_encryptedContent (boxFeedback s globalBoxId (feedbackCountPerBox s globalBoxId))
                       @ hs\<rparr>)),
            ownerBoxes := (ownerBoxes s)(boxOwners s globalBoxId :=
              (ownerBoxes s (boxOwners s globalBoxId))[k :=
                 (ownerBoxes s (boxOwners s globalBoxId) ! k)\<lparr>box_submissionCount := m\<rparr>])\<rparr>"
proof (cases "boxIsActive s globalBoxId")
  case (Some e)
  with ok show ?thesis
    by (simp add: submitFeedback_def)
next
  case None
  show ?thesis
  proof (cases "findBox s (boxOwners s globalBoxId) globalBoxId")
    case (Inl e)
    with ok None show ?thesis
      by (simp add: submitFeedback_def Let_def split: if_splits)
  next
    case k: (Inr k)
    show ?thesis
    proof (cases "checked_add (feedbackCountPerBox s globalBoxId) 1")
      case (Inl e)
      with ok None k show ?thesis
        by (simp add: submitFeedback_def Let_def split: if_splits)
    next
      case n: (Inr n)
      show ?thesis
      proof (cases "convertChunks fx chunks inputProof")
        case (Inl e)
        with ok None k n show ?thesis
          by (simp add: submitFeedback_def Let_def split: if_splits)
      next
        case hs: (Inr hs)
        show ?thesis
        proof (cases "checked_add (box_submissionCount (ownerBoxes s (boxOwners s globalBoxId) ! k)) 1")
          case (Inl e)
          with ok None k n hs show ?thesis
            by (simp add: submitFeedback_def Let_def split: if_splits)
        next
          case m: (Inr m)
          from ok None k n hs m
          have a: "box_allowRatings (ownerBoxes s (boxOwners s globalBoxId) ! k) \<longrightarrow> rating \<le> 5"
            by (simp add: submitFeedback_def Let_def split: if_splits)
          from ok None k n hs m
          have b: "feedbackId = feedbackCountPerBox s globalBoxId"
            by (simp add: submitFeedback_def Let_def split: if_splits)
          from ok None k n hs m
          have c: "s' = s\<lparr>feedbackCountPerBox := (feedbackCountPerBox s)(globalBoxId := n),
            boxFeedback := (boxFeedback s)(globalBoxId :=
              (boxFeedback s globalBoxId)(feedbackCountPerBox s globalBoxId :=
                (boxFeedback s globalBoxId (feedbackCountPerBox s globalBoxId))
                  \<lparr>fb_id := feedbackCountPerBox s globalBoxId, fb_boxId := globalBoxId,
                   fb_rating := (if box_allowRatings (ownerBoxes s (boxOwners s globalBoxId) ! k)
                                 then rating else 0),
                   fb_sentiment := sentiment, fb_submittedAt := now, fb_isRead := False,
                   fb_chunkCount := of_nat (length chunks),
                   fb_encryptedContent :=
                     fb_encryptedContent (boxFeedback s globalBoxId (feedbackCountPerBox s globalBoxId))
                       @ hs\<rparr>)),
            ownerBoxes := (ownerBoxes s)(boxOwners s globalBoxId :=
              (ownerBoxes s (boxOwners s globalBoxId))[k :=
                 (ownerBoxes s (boxOwners s globalBoxId) ! k)\<lparr>box_submissionCount := m\<rparr>])\<rparr>"
            by (auto simp: submitFeedback_def Let_def split: if_splits)
          from k a b c show ?thesis
            by (rule that)
        qed
      qed
    qed
  qed
qed

lemma submitFeedback_rating:
  assumes "submitFeedback fx s now globalBoxId chunks inputProof rating sentiment = Inr (s', feedbackId)"
  shows "\<exists>k. findBox s (boxOwners s globalBoxId) globalBoxId = Inr k
      \<and> feedbackId = feedbackCountPerBox s globalBoxId
      \<and> fb_rating (boxFeedback s' globalBoxId feedbackId) =
          (if box_allowRatings (ownerBoxes s (boxOwners s globalBoxId) ! k) then rating else 0)
      \<and> (box_allowRatings (ownerBoxes s (boxOwners s globalBoxId) ! k) \<longrightarrow> rating \<le> 5)
      \<and> (b \<noteq> globalBoxId \<or> i \<noteq> feedbackId \<longrightarrow> boxFeedback s' b i = boxFeedback s b i)"
  using assms by (elim submitFeedback_InrE) auto

lemma submitFeedback_boxes:
  assumes "submitFeedback fx s now globalBoxId chunks inputProof rating sentiment = Inr (s', feedbackId)"
    and "k < length (ownerBoxes s a)"
  shows "k < length (ownerBoxes s' a)
    \<and> box_allowRatings (ownerBoxes s' a ! k) = box_allowRatings (ownerBoxes s a ! k)
    \<and> box_id (ownerBoxes s' a ! k) = box_id (ownerBoxes s a ! k)"
proof (rule submitFeedback_InrE [OF assms(1)])
  fix j n hs m
  assume "s' = s\<lparr>feedbackCountPerBox := (feedbackCountPerBox s)(globalBoxId := n),
            boxFeedback := (boxFeedback s)(globalBoxId :=
              (boxFeedback s globalBoxId)(feedbackCountPerBox s globalBoxId :=
                (boxFeedback s globalBoxId (feedbackCountPerBox s globalBoxId))
                  \<lparr>fb_id := feedbackCountPerBox s globalBoxId, fb_boxId := globalBoxId,
                   fb_rating := (if box_allowRatings (ownerBoxes s (boxOwners s globalBoxId) ! j)
                                 then rating else 0),
                   fb_sentiment := sentiment, fb_submittedAt := now, fb_isRead := False,
                   fb_chunkCount := of_nat (length chunks),
                   fb_encryptedContent :=
                     fb_encryptedContent (boxFeedback s globalBoxId (feedbackCountPerBox s globalBoxId))
                       @ hs\<rparr>)),
            ownerBoxes := (ownerBoxes s)(boxOwners s globalBoxId :=
              (ownerBoxes s (boxOwners s globalBoxId))[j :=
                 (ownerBoxes s (boxOwners s globalBoxId) ! j)\<lparr>box_submissionCount := m\<rparr>])\<rparr>"
  then have "ownerBoxes s' = (ownerBoxes s)(boxOwners s globalBoxId :=
              (ownerBoxes s (boxOwners s globalBoxId))[j :=
                 (ownerBoxes s (boxOwners s globalBoxId) ! j)\<lparr>box_submissionCount := m\<rparr>])"
    by simp
  with assms(2) show ?thesis
    by (cases "j = k") auto
qed

lemma fexec_allowRatings:
  assumes "fexec fx s t = Inr s'" and "k < length (ownerBoxes s a)"
  shows "k < length (ownerBoxes s' a)
    \<and> box_allowRatings (ownerBoxes s' a ! k) = box_allowRatings (ownerBoxes s a ! k)
    \<and> box_id (ownerBoxes s' a ! k) = box_id (ownerBoxes s a ! k)"
proof (cases t)
  case (FTx sender now c)
  show ?thesis
  proof (cases c)
    case (SubmitFeedback globalBoxId chunks inputProof rating sentiment)
    with assms(1) FTx obtain feedbackId where
      "submitFeedback fx s now globalBoxId chunks inputProof rating sentiment = Inr (s', feedbackId)"
      by (cases "submitFeedback fx s now globalBoxId chunks inputProof rating sentiment") auto
    from submitFeedback_boxes [OF this assms(2)] show ?thesis .
  qed (use assms FTx in \<open>auto simp: createBox_def closeBox_def reopenBox_def updateBox_def
         markAsRead_def deleteFeedback_def Let_def nth_append nth_list_update
         split: sum.splits if_splits\<close>)
qed

lemma fexec_rating:
  assumes "fexec fx s t = Inr s'"
    and "\<forall>b i. fb_rating (boxFeedback s b i) \<le> 5"
  shows "fb_rating (boxFeedback s' b i) \<le> 5"
proof (cases t)
  case (FTx sender now c)
  show ?thesis
  proof (cases c)
    case (SubmitFeedback globalBoxId chunks inputProof rating sentiment)
    with assms(1) FTx obtain feedbackId where
      "submitFeedback fx s now globalBoxId chunks inputProof rating sentiment = Inr (s', feedbackId)"
      by (cases "submitFeedback fx s now globalBoxId chunks inputProof rating sentiment") auto
    from submitFeedback_rating [OF this, of b i] obtain k where
      new: "fb_rating (boxFeedback s' globalBoxId feedbackId) =
          (if box_allowRatings (ownerBoxes s (boxOwners s globalBoxId) ! k) then rating else 0)"
      and le: "box_allowRatings (ownerBoxes s (boxOwners s globalBoxId) ! k) \<longrightarrow> rating \<le> 5"
      and old: "b \<noteq> globalBoxId \<or> i \<noteq> feedbackId \<longrightarrow> boxFeedback s' b i = boxFeedback s b i"
      by blast
    show ?thesis
    proof (cases "b = globalBoxId \<and> i = feedbackId")
      case True
      with new le show ?thesis
        by (simp split: if_splits)
    next
      case False
      with old have "boxFeedback s' b i = boxFeedback s b i"
        by blast
      with assms(2) show ?thesis
        by simp
    qed
  qed (use assms FTx in \<open>auto simp: createBox_def closeBox_def reopenBox_def updateBox_def
         markAsRead_def deleteFeedback_def Let_def split: sum.splits if_splits\<close>)
qed

lemma frun_rating:
  "\<forall>b i. fb_rating (boxFeedback s b i) \<le> 5 \<Longrightarrow>
   fb_rating (boxFeedback (frun fx s txs) b i) \<le> 5"
proof (induction txs arbitrary: s)
  case Nil
  then show ?case by simp
next
  case (Cons t txs)
  have "\<forall>b i. fb_rating (boxFeedback (fstep fx s t) b i) \<le> 5"
    using Cons.prems by (auto simp: fstep_def split: sum.splits intro: fexec_rating)
  from Cons.IH [OF this] show ?case
    by simp
qed

declare findBox_loop.simps [simp del]

lemma findBox_loop_Some:
  "findBox_loop boxes globalBoxId i = Some k \<Longrightarrow>
   i \<le> k \<and> k < length boxes \<and> box_id (boxes ! k) = globalBoxId"
proof (induction boxes globalBoxId i rule: findBox_loop.induct)
  case (1 boxes globalBoxId i)
  from "1.prems" show ?case
    by (subst (asm) findBox_loop.simps) (auto split: if_splits dest: "1.IH")
qed

lemma findBox_loop_first:
  assumes "k < length boxes" "box_id (boxes ! k) = globalBoxId" "i \<le> k"
    "\<forall>j. i \<le> j \<and> j < k \<longrightarrow> box_id (boxes ! j) \<noteq> globalBoxId"
  shows "findBox_loop boxes globalBoxId i = Some k"
  using assms
proof (induction "k - i" arbitrary: i)
  case 0
  then have "i = k" by simp
  with "0.prems" show ?case
    by (subst findBox_loop.simps) simp
next
  case (Suc n)
  then have lt: "i < k" by simp
  with Suc.prems have ne: "box_id (boxes ! i) \<noteq> globalBoxId"
    by simp
  have "findBox_loop boxes globalBoxId i = findBox_loop boxes globalBoxId (Suc i)"
    using lt Suc.prems(1) ne by (subst findBox_loop.simps) simp
  also have "\<dots> = Some k"
    using Suc.hyps(2) Suc.prems lt by (intro Suc.hyps(1)) auto
  finally show ?case .
qed

lemma findBox_Inr:
  "findBox s a globalBoxId = Inr k \<Longrightarrow>
   k < length (ownerBoxes s a) \<and> box_id (ownerBoxes s a ! k) = globalBoxId"
  by (auto simp: findBox_def split: option.splits dest: findBox_loop_Some)

lemma sound_findBox:
  assumes "boxesSound s" "k < length (ownerBoxes s a)"
  shows "boxOwners s (box_id (ownerBoxes s a ! k)) = a"
    and "findBox s a (box_id (ownerBoxes s a ! k)) = Inr k"
proof -
  from assms have d: "distinct (map box_id (ownerBoxes s a))"
    and o: "\<forall>g \<in> set (map box_id (ownerBoxes s a)). boxOwners s g = a"
    by (auto simp: boxesSound_def boxIds_def)
  from assms(2) have "map box_id (ownerBoxes s a) ! k \<in> set (map box_id (ownerBoxes s a))"
    by (intro nth_mem) simp
  with assms(2) have "box_id (ownerBoxes s a ! k) \<in> set (map box_id (ownerBoxes s a))"
    by (simp only: nth_map)
  with o show "boxOwners s (box_id (ownerBoxes s a ! k)) = a"
    by blast
  have "\<forall>j. 0 \<le> j \<and> j < k \<longrightarrow> box_id (ownerBoxes s a ! j) \<noteq> box_id (ownerBoxes s a ! k)"
  proof (intro allI impI)
    fix j
    assume j: "0 \<le> j \<and> j < k"
    have "(map box_id (ownerBoxes s a) ! j = map box_id (ownerBoxes s a) ! k) = (j = k)"
      using d j assms(2) by (intro nth_eq_iff_index_eq) auto
    with j assms(2) show "box_id (ownerBoxes s a ! j) \<noteq> box_id (ownerBoxes s a ! k)"
      by simp
  qed
  with assms(2) have "findBox_loop (ownerBoxes s a) (box_id (ownerBoxes s a ! k)) 0 = Some k"
    by (intro findBox_loop_first) auto
  then show "findBox s a (box_id (ownerBoxes s a ! k)) = Inr k"
    by (simp add: findBox_def)
qed

lemma map_box_id_update:
  "box_id y = box_id (xs ! k) \<Longrightarrow> map box_id (xs[k := y]) = map box_id xs"
  by (cases "k < length xs") (simp_all add: map_update list_update_same_conv list_update_beyond)

lemma createBox_sound:
  assumes "createBox s sender now title description category allowRatings allowSentiment = Inr (s', g)"
    and "boxesSound s"
  shows "boxesSound s'"
proof -
  from assms(1) have s': "s' = s\<lparr>globalBoxCounter := globalBoxCounter s + 1,
        ownerBoxes := (ownerBoxes s)(sender := ownerBoxes s sender @
          [\<lparr>box_id = globalBoxCounter s, box_owner = sender, box_title = title,
            box_description = description, box_category = category, box_isActive = True,
            box_createdAt = now, box_closedAt = 0, box_submissionCount = 0,
            box_allowRatings = allowRatings, box_allowSentiment = allowSentiment\<rparr>]),
        boxOwners := (boxOwners s)(globalBoxCounter s := sender)\<rparr>"
    by (auto simp: createBox_def Let_def checked_add_def split: if_splits)
  show ?thesis
    unfolding boxesSound_def
  proof (intro allI conjI ballI)
    fix a
    from assms(2) have old: "distinct (boxIds s a)"
      "\<forall>g \<in> set (boxIds s a). g < globalBoxCounter s \<and> boxOwners s g = a"
      by (auto simp: boxesSound_def)
    then have fresh: "globalBoxCounter s \<notin> set (boxIds s a)"
      by auto
    show "distinct (boxIds s' a)"
      using old(1) fresh by (auto simp: s' boxIds_def)
    fix g
    assume "g \<in> set (boxIds s' a)"
    then have "g \<in> set (boxIds s a) \<or> (g = globalBoxCounter s \<and> a = sender)"
      by (auto simp: s' boxIds_def split: if_splits)
    then show "g < globalBoxCounter s'"
      using old(2) by (auto simp: s')
    from \<open>g \<in> set (boxIds s a) \<or> (g = globalBoxCounter s \<and> a = sender)\<close>
    show "boxOwners s' g = a"
      using old(2) by (auto simp: s')
  qed
qed

lemma fexec_sound:
  assumes "fexec fx s t = Inr s'" and "boxesSound s"
  shows "boxesSound s'"
proof (cases t)
  case (FTx sender now c)
  show ?thesis
  proof (cases c)
    case (CreateBox title description category allowRatings allowSentiment)
    with assms(1) FTx obtain g where
      "createBox s sender now title description category allowRatings allowSentiment = Inr (s', g)"
      by (cases "createBox s sender now title description category allowRatings allowSentiment") auto
    from createBox_sound [OF this assms(2)] show ?thesis .
  next
    case (SubmitFeedback globalBoxId chunks inputProof rating sentiment)
    with assms(1) FTx obtain feedbackId where
      ok: "submitFeedback fx s now globalBoxId chunks inputProof rating sentiment = Inr (s', feedbackId)"
      by (cases "submitFeedback fx s now globalBoxId chunks inputProof rating sentiment") auto
    show ?thesis
    proof (rule submitFeedback_InrE [OF ok])
      fix j n hs m
      assume "s' = s\<lparr>feedbackCountPerBox := (feedbackCountPerBox s)(globalBoxId := n),
            boxFeedback := (boxFeedback s)(globalBoxId :=
              (boxFeedback s globalBoxId)(feedbackCountPerBox s globalBoxId :=
                (boxFeedback s globalBoxId (feedbackCountPerBox s globalBoxId))
                  \<lparr>fb_id := feedbackCountPerBox s globalBoxId, fb_boxId := globalBoxId,
                   fb_rating := (if box_allowRatings (ownerBoxes s (boxOwners s globalBoxId) ! j)
                                 then rating else 0),
                   fb_sentiment := sentiment, fb_submittedAt := now, fb_isRead := False,
                   fb_chunkCount := of_nat (length chunks),
                   fb_encryptedContent :=
                     fb_encryptedContent (boxFeedback s globalBoxId (feedbackCountPerBox s globalBoxId))
                       @ hs\<rparr>)),
            ownerBoxes := (ownerBoxes s)(boxOwners s globalBoxId :=
              (ownerBoxes s (boxOwners s globalBoxId))[j :=
                 (ownerBoxes s (boxOwners s globalBoxId) ! j)\<lparr>box_submissionCount := m\<rparr>])\<rparr>"
      then have "boxIds s' = boxIds s" "globalBoxCounter s' = globalBoxCounter s"
        "boxOwners s' = boxOwners s"
        by (simp_all add: boxIds_def fun_eq_iff map_box_id_update)
      with assms(2) show ?thesis
        by (simp add: boxesSound_def)
    qed
  next
    case (CloseBox boxId)
    with assms(1) FTx have "boxIds s' = boxIds s" "globalBoxCounter s' = globalBoxCounter s"
        "boxOwners s' = boxOwners s"
      by (auto simp: closeBox_def Let_def boxIds_def fun_eq_iff map_box_id_update split: if_splits)
    with assms(2) show ?thesis
      by (simp add: boxesSound_def)
  next
    case (ReopenBox boxId)
    with assms(1) FTx have "boxIds s' = boxIds s" "globalBoxCounter s' = globalBoxCounter s"
        "boxOwners s' = boxOwners s"
      by (auto simp: reopenBox_def Let_def boxIds_def fun_eq_iff map_box_id_update split: if_splits)
    with assms(2) show ?thesis
      by (simp add: boxesSound_def)
  next
    case (UpdateBox boxId title description)
    with assms(1) FTx have "boxIds s' = boxIds s" "globalBoxCounter s' = globalBoxCounter s"
        "boxOwners s' = boxOwners s"
      by (auto simp: updateBox_def Let_def boxIds_def fun_eq_iff map_box_id_update split: if_splits)
    with assms(2) show ?thesis
      by (simp add: boxesSound_def)
  next
    case (MarkAsRead globalBoxId feedbackId)
    with assms(1) FTx have "boxIds s' = boxIds s" "globalBoxCounter s' = globalBoxCounter s"
        "boxOwners s' = boxOwners s"
      by (auto simp: markAsRead_def Let_def boxIds_def fun_eq_iff split: if_splits)
    with assms(2) show ?thesis
      by (simp add: boxesSound_def)
  next
    case (DeleteFeedback globalBoxId feedbackId)
    with assms(1) FTx have "boxIds s' = boxIds s" "globalBoxCounter s' = globalBoxCounter s"
        "boxOwners s' = boxOwners s"
      by (auto simp: deleteFeedback_def Let_def boxIds_def fun_eq_iff split: if_splits)
    with assms(2) show ?thesis
      by (simp add: boxesSound_def)
  qed
qed

lemma frun_sound: "boxesSound s \<Longrightarrow> boxesSound (frun fx s txs)"
  by (induction txs arbitrary: s)
     (auto simp: fstep_def split: sum.splits dest: fexec_sound)

lemma sound_init: "boxesSound feedback_init"
  by (simp add: boxesSound_def boxIds_def feedback_init_def)

lemma createBox_new:
  assumes "createBox s sender now title description category allowRatings allowSentiment = Inr (s', g)"
  shows "g = globalBoxCounter s
    \<and> length (ownerBoxes s' sender) = Suc (length (ownerBoxes s sender))
    \<and> box_id (ownerBoxes s' sender ! length (ownerBoxes s sender)) = g
    \<and> box_allowRatings (ownerBoxes s' sender ! length (ownerBoxes s sender)) = allowRatings
    \<and> boxOwners s' g = sender"
  using assms
  by (auto simp: createBox_def Let_def checked_add_def split: if_splits)

text \<open>
  C10. In every state the contract can reach, every stored feedback entry has a rating of
  at most 5. A successful \<^verbatim>\<open>submitFeedback\<close> reads the flag of the box whose id is the
  target id: it stores the rating argument when that box allows ratings, which it can only
  do when the argument is at most 5, and stores 0 whatever the argument when the box does
  not allow ratings. \<^verbatim>\<open>createBox\<close> stores the flag it is given under the id it returns, and
  no transaction changes the id or the \<open>allowRatings\<close> flag of an existing box; so in every
  reachable state a submission to any existing box obeys the flag that box was created
  with.
\<close>

theorem stored_rating_at_most_5:
  "unat (fb_rating (boxFeedback (frun fx feedback_init txs) b i)) \<le> 5
   \<and> (submitFeedback fx s now globalBoxId chunks inputProof rating sentiment = Inr (s', feedbackId)
        \<longrightarrow> (\<exists>k. findBox s (boxOwners s globalBoxId) globalBoxId = Inr k
              \<and> k < length (ownerBoxes s (boxOwners s globalBoxId))
              \<and> box_id (ownerBoxes s (boxOwners s globalBoxId) ! k) = globalBoxId
              \<and> fb_rating (boxFeedback s' globalBoxId feedbackId) =
                  (if box_allowRatings (ownerBoxes s (boxOwners s globalBoxId) ! k)
                   then rating else 0)
              \<and> (box_allowRatings (ownerBoxes s (boxOwners s globalBoxId) ! k)
                    \<longrightarrow> unat rating \<le> 5)))
   \<and> (fexec fx s t = Inr s'' \<and> k' < length (ownerBoxes s a)
        \<longrightarrow> box_allowRatings (ownerBoxes s'' a ! k') = box_allowRatings (ownerBoxes s a ! k')
           \<and> box_id (ownerBoxes s'' a ! k') = box_id (ownerBoxes s a ! k'))
   \<and> (createBox s sender now title description category allowRatings allowSentiment = Inr (s1, g)
        \<longrightarrow> box_id (ownerBoxes s1 sender ! length (ownerBoxes s sender)) = g
           \<and> box_allowRatings (ownerBoxes s1 sender ! length (ownerBoxes s sender)) = allowRatings)
   \<and> (n < length (ownerBoxes (frun fx feedback_init txs) a)
       \<and> submitFeedback fx (frun fx feedback_init txs) now
            (box_id (ownerBoxes (frun fx feedback_init txs) a ! n))
            chunks inputProof rating sentiment = Inr (s2, f2)
        \<longrightarrow> fb_rating (boxFeedback s2 (box_id (ownerBoxes (frun fx feedback_init txs) a ! n)) f2) =
              (if box_allowRatings (ownerBoxes (frun fx feedback_init txs) a ! n)
               then rating else 0)
           \<and> (box_allowRatings (ownerBoxes (frun fx feedback_init txs) a ! n)
                 \<longrightarrow> unat rating \<le> 5))"
proof -
  let ?S = "frun fx feedback_init txs"
  let ?g = "box_id (ownerBoxes ?S a ! n)"
  have "fb_rating (boxFeedback ?S b i) \<le> 5"
    by (rule frun_rating) (simp add: feedback_init_def zeroFeedback_def)
  then have c1: "unat (fb_rating (boxFeedback ?S b i)) \<le> 5"
    by (simp add: word_le_nat_alt)
  have c2: "submitFeedback fx s now globalBoxId chunks inputProof rating sentiment = Inr (s', feedbackId)
        \<longrightarrow> (\<exists>k. findBox s (boxOwners s globalBoxId) globalBoxId = Inr k
              \<and> k < length (ownerBoxes s (boxOwners s globalBoxId))
              \<and> box_id (ownerBoxes s (boxOwners s globalBoxId) ! k) = globalBoxId
              \<and> fb_rating (boxFeedback s' globalBoxId feedbackId) =
                  (if box_allowRatings (ownerBoxes s (boxOwners s globalBoxId) ! k)
                   then rating else 0)
              \<and> (box_allowRatings (ownerBoxes s (boxOwners s globalBoxId) ! k)
                    \<longrightarrow> unat rating \<le> 5))"
  proof
    assume "submitFeedback fx s now globalBoxId chunks inputProof rating sentiment = Inr (s', feedbackId)"
    from submitFeedback_rating [OF this, of globalBoxId feedbackId] obtain k where
      k: "findBox s (boxOwners s globalBoxId) globalBoxId = Inr k"
      and "fb_rating (boxFeedback s' globalBoxId feedbackId) =
         (if box_allowRatings (ownerBoxes s (boxOwners s globalBoxId) ! k) then rating else 0)"
        "box_allowRatings (ownerBoxes s (boxOwners s globalBoxId) ! k) \<longrightarrow> rating \<le> 5"
      by blast
    with findBox_Inr [OF k]
    show "\<exists>k. findBox s (boxOwners s globalBoxId) globalBoxId = Inr k
              \<and> k < length (ownerBoxes s (boxOwners s globalBoxId))
              \<and> box_id (ownerBoxes s (boxOwners s globalBoxId) ! k) = globalBoxId
              \<and> fb_rating (boxFeedback s' globalBoxId feedbackId) =
                  (if box_allowRatings (ownerBoxes s (boxOwners s globalBoxId) ! k)
                   then rating else 0)
              \<and> (box_allowRatings (ownerBoxes s (boxOwners s globalBoxId) ! k)
                    \<longrightarrow> unat rating \<le> 5)"
      by (intro exI [of _ k]) (simp add: word_le_nat_alt)
  qed
  have c3: "fexec fx s t = Inr s'' \<and> k' < length (ownerBoxes s a)
        \<longrightarrow> box_allowRatings (ownerBoxes s'' a ! k') = box_allowRatings (ownerBoxes s a ! k')
           \<and> box_id (ownerBoxes s'' a ! k') = box_id (ownerBoxes s a ! k')"
    using fexec_allowRatings by blast
  have c4: "createBox s sender now title description category allowRatings allowSentiment = Inr (s1, g)
        \<longrightarrow> box_id (ownerBoxes s1 sender ! length (ownerBoxes s sender)) = g
           \<and> box_allowRatings (ownerBoxes s1 sender ! length (ownerBoxes s sender)) = allowRatings"
    using createBox_new by blast
  have c5: "n < length (ownerBoxes ?S a)
       \<and> submitFeedback fx ?S now ?g chunks inputProof rating sentiment = Inr (s2, f2)
        \<longrightarrow> fb_rating (boxFeedback s2 ?g f2) =
              (if box_allowRatings (ownerBoxes ?S a ! n) then rating else 0)
           \<and> (box_allowRatings (ownerBoxes ?S a ! n) \<longrightarrow> unat rating \<le> 5)"
  proof
    assume h: "n < length (ownerBoxes ?S a)
       \<and> submitFeedback fx ?S now ?g chunks inputProof rating sentiment = Inr (s2, f2)"
    have snd: "boxesSound ?S"
      by (rule frun_sound [OF sound_init])
    from h have n: "n < length (ownerBoxes ?S a)"
      and ok: "submitFeedback fx ?S now ?g chunks inputProof rating sentiment = Inr (s2, f2)"
      by blast+
    note o = sound_findBox(1) [OF snd n] and f = sound_findBox(2) [OF snd n]
    from submitFeedback_rating [OF ok, of ?g f2] obtain k where
      k: "findBox ?S (boxOwners ?S ?g) ?g = Inr k"
      and r: "fb_rating (boxFeedback s2 ?g f2) =
         (if box_allowRatings (ownerBoxes ?S (boxOwners ?S ?g) ! k) then rating else 0)"
      and l: "box_allowRatings (ownerBoxes ?S (boxOwners ?S ?g) ! k) \<longrightarrow> rating \<le> 5"
      by blast
    from k f have kn: "k = n"
      unfolding o by simp
    from r have r': "fb_rating (boxFeedback s2 ?g f2) =
        (if box_allowRatings (ownerBoxes ?S a ! n) then rating else 0)"
      unfolding o kn .
    from l have "box_allowRatings (ownerBoxes ?S a ! n) \<longrightarrow> unat rating \<le> 5"
      unfolding o kn by (simp add: word_le_nat_alt)
    with r' show "fb_rating (boxFeedback s2 ?g f2) =
              (if box_allowRatings (ownerBoxes ?S a ! n) then rating else 0)
           \<and> (box_allowRatings (ownerBoxes ?S a ! n) \<longrightarrow> unat rating \<le> 5)"
      by (rule conjI)
  qed
  show ?thesis
    by (intro conjI) (rule c1, rule c2, rule c3, rule c4, rule c5)
qed

text \<open>
  With a rated box (id 0) and a plain box (id 1): a rating of 9 sent to the plain box is
  stored as 0, and the same rating sent to the rated box is refused.
\<close>

theorem stored_rating_at_most_5_witness:
  "submitFeedback acceptAll (frun acceptAll feedback_init twoBoxes) 102 1 [5] [] 9 Positive
      = Inr (frun acceptAll feedback_init (twoBoxes @ [nineToPlain]), 0)
   \<and> fb_rating (boxFeedback (frun acceptAll feedback_init (twoBoxes @ [nineToPlain])) 1 0) = 0
   \<and> submitFeedback acceptAll (frun acceptAll feedback_init twoBoxes) 102 0 [5] [] 9 Positive
      = Inl (Revert ''Rating must be 0-5'')
   \<and> box_id (ownerBoxes (frun acceptAll feedback_init twoBoxes) alice ! 1) = 1
   \<and> \<not> box_allowRatings (ownerBoxes (frun acceptAll feedback_init twoBoxes) alice ! 1)
   \<and> \<not> box_allowRatings (ownerBoxes (frun acceptAll feedback_init (twoBoxes @ [nineToPlain])) alice ! 1)
   \<and> unat (fb_rating (boxFeedback (frun acceptAll feedback_init scenarioB) 0 0)) \<le> 5
   \<and> fb_rating (boxFeedback (frun acceptAll feedback_init scenarioB) 0 0) = 4"
proof -
  let ?one = "frun acceptAll feedback_init [FTx alice 100 (CreateBox ''Rated'' [] General True True)]"
  let ?s = "frun acceptAll feedback_init twoBoxes"
  let ?s' = "frun acceptAll feedback_init (twoBoxes @ [nineToPlain])"
  have h: "submitFeedback acceptAll ?s 102 1 [5] [] 9 Positive = Inr (?s', 0)"
    by (simp add: twoBoxes_def nineToPlain_def feedback_defs)
  have c: "createBox ?one alice 101 ''Plain'' [] General False True = Inr (?s, 1)"
    by (simp add: twoBoxes_def feedback_defs)
  have l0: "length (ownerBoxes ?one alice) = 1"
    by (simp add: feedback_defs)
  have l: "1 < length (ownerBoxes ?s alice)"
    by (simp add: twoBoxes_def feedback_defs)
  from stored_rating_at_most_5 [THEN conjunct2, THEN conjunct2, THEN conjunct2, THEN conjunct1,
      rule_format, OF c]
  have id1: "box_id (ownerBoxes ?s alice ! 1) = 1"
    and plain: "\<not> box_allowRatings (ownerBoxes ?s alice ! 1)"
    unfolding l0 by simp_all
  from h have h5: "1 < length (ownerBoxes ?s alice)
       \<and> submitFeedback acceptAll ?s 102 (box_id (ownerBoxes ?s alice ! 1)) [5] [] 9 Positive
           = Inr (?s', 0)"
    unfolding id1 using l by simp
  from stored_rating_at_most_5 [where fx = acceptAll and txs = twoBoxes,
      THEN conjunct2, THEN conjunct2, THEN conjunct2, THEN conjunct2, rule_format, OF h5]
  have r: "fb_rating (boxFeedback ?s' 1 0) = 0"
    unfolding id1 using plain by simp
  from stored_rating_at_most_5 [THEN conjunct2, THEN conjunct1, rule_format, OF h]
  have tgt: "\<exists>k. findBox ?s (boxOwners ?s 1) 1 = Inr k
      \<and> box_id (ownerBoxes ?s (boxOwners ?s 1) ! k) = 1"
    by blast
  have e: "fexec acceptAll ?s nineToPlain = Inr ?s' \<and> 1 < length (ownerBoxes ?s alice)"
    using h l by (simp add: nineToPlain_def)
  from stored_rating_at_most_5 [THEN conjunct2, THEN conjunct2, THEN conjunct1, rule_format, OF e]
    plain
  have w: "\<not> box_allowRatings (ownerBoxes ?s' alice ! 1)"
    by simp
  have x: "submitFeedback acceptAll ?s 102 0 [5] [] 9 Positive = Inl (Revert ''Rating must be 0-5'')"
    by (simp add: twoBoxes_def feedback_defs)
  have u: "unat (fb_rating (boxFeedback (frun acceptAll feedback_init scenarioB) 0 0)) \<le> 5"
    by (rule stored_rating_at_most_5 [THEN conjunct1])
  have v: "fb_rating (boxFeedback (frun acceptAll feedback_init scenarioB) 0 0) = 4"
    by (simp add: scenarioB_def feedback_defs)
  from h r x id1 plain w u v show ?thesis
    by blast
qed

end
